theory Spec2Isabelle
  imports Main
begin

unbundle bit_operations_syntax

section \<open>A shell for Linux: model of \<open>main.c\<close>\<close>

text \<open>
  The interpreter is one C function, \<open>runShell\<close>, called forever by \<open>main\<close>, five
  global variables and a signal handler. The model follows the function block by block.
  C strings are \<open>string\<close>s, a buffer is a \<open>char list\<close> in which the byte \<open>NUL\<close> ends the
  string, C \<open>int\<close>s are \<open>int\<close>s (no arithmetic of the program comes near the 32-bit
  range), a \<open>char*\<close> that may be \<open>NULL\<close> is a \<open>string option\<close>. Behaviour that C leaves
  undefined is a \<open>fault\<close>, never a value.
\<close>

subsection \<open>Faults, characters, decimal numbers\<close>

datatype fault =
    Out_of_bounds      \<comment> \<open>an array or buffer indexed outside its extent\<close>
  | Null_pointer       \<comment> \<open>\<open>strcmp\<close> applied to \<open>NULL\<close>\<close>
  | Bad_format         \<comment> \<open>\<open>sprintf\<close> meets a conversion it has no argument for\<close>

definition NUL :: char where "NUL = CHR 0x00"
definition NL :: char where "NL = CHR 0x0A"
definition TAB :: char where "TAB = CHR 0x09"

definition digit :: "nat \<Rightarrow> char" where
  "digit d = ''0123456789'' ! d"

fun dec_nat :: "nat \<Rightarrow> string" where
  "dec_nat n = (if n < 10 then [digit n] else dec_nat (n div 10) @ [digit (n mod 10)])"

declare dec_nat.simps [simp del]

definition dec :: "int \<Rightarrow> string" where
  \<comment> \<open>what \<open>%d\<close> prints\<close>
  "dec k = (if k < 0 then CHR ''-'' # dec_nat (nat (- k)) else dec_nat (nat k))"

subsection \<open>Variable expansion (lines 151-171)\<close>

text \<open>
  \<open>format fmt arg\<close> is \<open>sprintf\<close> with the format \<open>fmt\<close> and at most one \<open>int\<close> argument:
  \<open>%d\<close> prints the argument and uses it up, \<open>%%\<close> prints a percent sign, every other
  byte is copied. A second \<open>%d\<close>, or a \<open>%\<close> followed by anything else, is \<open>Bad_format\<close>:
  with the single \<open>int\<close> that the call passes C gives it no meaning, or a meaning this
  model does not cover.
\<close>

fun format :: "string \<Rightarrow> int option \<Rightarrow> fault + string" where
  "format [] a = Inr []"
| "format [c] a = (if c = CHR ''%'' then Inl Bad_format else Inr [c])"
| "format (c # c' # cs) a =
     (if c \<noteq> CHR ''%'' then
        (case format (c' # cs) a of Inl e \<Rightarrow> Inl e | Inr r \<Rightarrow> Inr (c # r))
      else if c' = CHR ''d'' then
        (case a of
           None \<Rightarrow> Inl Bad_format
         | Some k \<Rightarrow> (case format cs None of Inl e \<Rightarrow> Inl e | Inr r \<Rightarrow> Inr (dec k @ r)))
      else if c' = CHR ''%'' then
        (case format cs a of Inl e \<Rightarrow> Inl e | Inr r \<Rightarrow> Inr (CHR ''%'' # r))
      else Inl Bad_format)"

definition cstr :: "char list \<Rightarrow> string" where
  \<comment> \<open>the C string held by a buffer: the bytes before the first \<open>NUL\<close>\<close>
  "cstr buf = takeWhile (\<lambda>c. c \<noteq> NUL) buf"

definition poke :: "char list \<Rightarrow> string \<Rightarrow> char list" where
  \<comment> \<open>a string and its terminator written at the start of a buffer; the bytes behind
     them stay as they were\<close>
  "poke buf s = s @ [NUL] @ drop (length s + 1) buf"

definition strip_newline :: "char list \<Rightarrow> char list" where
  \<comment> \<open>\<open>newline = strchr(line, '\n'); if (newline) *newline = 0;\<close>\<close>
  "strip_newline buf =
     (let k = length (takeWhile (\<lambda>c. c \<noteq> NUL \<and> c \<noteq> NL) buf)
      in if k < length buf \<and> buf ! k = NL then buf[k := NUL] else buf)"

text \<open>
  The loop \<open>for (i = 0; i < nread; i++)\<close>. \<open>nread\<close> is fixed before the loop, the buffer
  \<open>line\<close> is read at \<open>i\<close> in its current state, and \<open>expand\<close> is cleared only by an
  expansion. On the second \<open>$\<close> a copy of the string gets \<open>%d\<close> written over positions
  \<open>i - 1\<close> and \<open>i\<close> and is printed back into \<open>line\<close>. The buffer is the one \<open>getline\<close>
  allocated, of \<open>alloc\<close> bytes (at least \<open>nread + 1\<close>, how many more is \<open>getline\<close>'s choice);
  \<open>sprintf\<close> does not know the size, and a result that does not fit, terminator
  included, is written past the end of the allocation.
\<close>

function expand_loop ::
    "int \<Rightarrow> nat \<Rightarrow> nat \<Rightarrow> nat \<Rightarrow> int \<Rightarrow> char list \<Rightarrow> fault + char list" where
  "expand_loop shellPID alloc nread i expand line =
     (if \<not> i < nread then Inr line
      else if length line \<le> i then Inl Out_of_bounds
      else if line ! i = CHR ''$'' \<and> expand = 0 then
        expand_loop shellPID alloc nread (i + 1) 1 line
      else if line ! i = CHR ''$'' \<and> expand = 1 then
        (let lineDup = cstr line in
         if i = 0 \<or> length lineDup \<le> i then Inl Out_of_bounds
         else (case format (lineDup[i - 1 := CHR ''%'', i := CHR ''d'']) (Some shellPID) of
                 Inl e \<Rightarrow> Inl e
               | Inr s \<Rightarrow>
                   if alloc < length s + 1 then Inl Out_of_bounds
                   else expand_loop shellPID alloc nread (i + 1) 0 (poke line s)))
      else expand_loop shellPID alloc nread (i + 1) expand line)"
  by pat_completeness auto
termination
  by (relation "measure (\<lambda>(p, alloc, nread, i, e, l). nread - i)") auto

declare expand_loop.simps [simp del]

definition expand_line :: "int \<Rightarrow> nat \<Rightarrow> string \<Rightarrow> fault + string" where
  \<comment> \<open>from the bytes \<open>getline\<close> returned (\<open>nread\<close> of them, then a \<open>NUL\<close>, in a buffer of
     \<open>alloc\<close> bytes) to the string that is tokenized\<close>
  "expand_line shellPID alloc raw =
     (case expand_loop shellPID alloc (length raw) 0 0 (strip_newline (raw @ [NUL])) of
        Inl e \<Rightarrow> Inl e
      | Inr line \<Rightarrow> Inr (cstr line))"

subsection \<open>Tokens (lines 173-198)\<close>

text \<open>
  \<open>strtok s delim\<close> skips the delimiters at the start of \<open>s\<close>; if nothing is left there is
  no token, otherwise the token runs to the next delimiter (or the end), and the scan
  resumes after that delimiter. The result is the token and the string left for the
  next call, which in C is the call with \<open>NULL\<close> as first argument.
\<close>

definition strtok :: "string \<Rightarrow> string \<Rightarrow> (string \<times> string) option" where
  "strtok s delim =
     (let s1 = dropWhile (\<lambda>c. c \<in> set delim) s in
      if s1 = [] then None
      else (let token = takeWhile (\<lambda>c. c \<notin> set delim) s1
            in Some (token, drop (length token + 1) s1)))"

lemma strtok_shorter: "strtok s delim = Some (token, rest) \<Longrightarrow> length rest < length s"
proof -
  assume a: "strtok s delim = Some (token, rest)"
  define s1 where "s1 = dropWhile (\<lambda>c. c \<in> set delim) s"
  from a have ne: "s1 \<noteq> []" and r: "rest = drop (length token + 1) s1"
    by (auto simp: strtok_def Let_def s1_def split: if_splits)
  have "length s1 \<le> length s"
    unfolding s1_def by (rule length_dropWhile_le)
  with ne r show ?thesis by (cases s1) auto
qed

datatype scanned =
    Comment                         \<comment> \<open>the first token starts with \<open>#\<close>\<close>
  | Tokens "string list" int        \<comment> \<open>\<open>arguments[0..i-1]\<close> and \<open>argIndex\<close>\<close>

text \<open>
  The \<open>while (token != NULL)\<close> loop. \<open>arguments\<close> holds the tokens stored so far, so the
  loop index \<open>i\<close> is its length, and slot 512 does not exist. The test for a comment is
  written twice in the source, with the same condition. Every token after the first is
  asked for with the delimiter \<open>" "\<close>.
\<close>

function token_loop :: "(string \<times> string) option \<Rightarrow> string list \<Rightarrow> int \<Rightarrow> fault + scanned" where
  "token_loop None arguments argIndex = Inr (Tokens arguments argIndex)"
| "token_loop (Some (token, rest)) arguments argIndex =
     (let i = int (length arguments) in
      if 512 \<le> i then Inl Out_of_bounds
      else if take 1 token = ''#'' \<and> i = 0 then Inr Comment
      else token_loop (strtok rest '' '') (arguments @ [token])
             (if (token = ''<'' \<or> token = ''>'') \<and> argIndex = 1000 then i - 1 else argIndex))"
  by pat_completeness auto
termination
  by (relation "measure (\<lambda>(t, a, k). case t of None \<Rightarrow> 0 | Some (token, rest) \<Rightarrow> Suc (length rest))")
     (auto split: option.splits dest: strtok_shorter)

definition scan :: "string \<Rightarrow> fault + scanned" where
  \<comment> \<open>the first token is asked for with the delimiters space and tab; \<open>argIndex\<close> starts
     at 1000, which stands for "no redirection seen"\<close>
  "scan line = token_loop (strtok line [CHR '' '', TAB]) [] 1000"

subsection \<open>The command structure (lines 200-241)\<close>

record command =
  args :: "string option list"   \<comment> \<open>\<open>com.args[0..numArgs-1]\<close>; every further slot is \<open>NULL\<close>\<close>
  com_input :: string     \<comment> \<open>\<open>com.input\<close>\<close>
  com_output :: string    \<comment> \<open>\<open>com.output\<close>\<close>
  background :: int
  numArgs :: int

text \<open>
  The loop \<open>for (j = 0; j < i; j++)\<close> that copies the token after each \<open><\<close> and each \<open>>\<close>
  into \<open>com.input\<close> and \<open>com.output\<close>, arrays of 128 bytes filled by \<open>strcpy\<close>.
\<close>

fun redirect_loop :: "string list \<Rightarrow> nat list \<Rightarrow> string \<times> string \<Rightarrow> fault + string \<times> string" where
  "redirect_loop arguments [] io = Inr io"
| "redirect_loop arguments (j # js) (inp, outp) =
     (if arguments ! j = ''<'' \<and> 128 \<le> length (arguments ! (j + 1)) then Inl Out_of_bounds
      else if arguments ! j = ''>'' \<and> 128 \<le> length (arguments ! (j + 1)) then Inl Out_of_bounds
      else redirect_loop arguments js
             (if arguments ! j = ''<'' then arguments ! (j + 1) else inp,
              if arguments ! j = ''>'' then arguments ! (j + 1) else outp))"

text \<open>
  After the token loop \<open>i\<close> is decremented to the index of the last token, and
  \<open>arguments[i]\<close> is compared with \<open>&\<close>: with no token at all that is \<open>arguments[-1]\<close>.
  \<open>z\<close> is the last index copied into \<open>com.args\<close>; the slot of a final \<open>&\<close> is skipped and
  stays \<open>NULL\<close>, while \<open>numArgs\<close> is \<open>z + 1\<close> in every case.
\<close>

definition build :: "string list \<Rightarrow> int \<Rightarrow> fault + command" where
  "build arguments argIndex =
     (let i = int (length arguments) - 1 in
      if i < 0 then Inl Out_of_bounds
      else
        (let amp = (arguments ! nat i = ''&'');
             z = (if argIndex = 1000 then i else argIndex)
         in case redirect_loop arguments [0..<nat i] ([], []) of
              Inl e \<Rightarrow> Inl e
            | Inr (inp, outp) \<Rightarrow>
                Inr \<lparr>args = map (\<lambda>j. if i = int j \<and> amp then None else Some (arguments ! j))
                             [0..<nat (z + 1)],
                     com_input = inp, com_output = outp,
                     background = (if amp then 1 else 0),
                     numArgs = z + 1\<rparr>))"

subsection \<open>Wait statuses\<close>

text \<open>
  The macros of \<open><sys/wait.h>\<close> are the platform's, not the program's; these are the
  Linux definitions. A child that called \<open>exit(e)\<close> has status \<open>e\<close> shifted left by eight
  bits, a child killed by signal \<open>n\<close> has status \<open>n\<close>.
\<close>

definition WTERMSIG :: "int \<Rightarrow> int" where
  "WTERMSIG status = status AND 0x7f"

definition WEXITSTATUS :: "int \<Rightarrow> int" where
  "WEXITSTATUS status = drop_bit 8 (status AND 0xff00)"

definition WIFEXITED :: "int \<Rightarrow> bool" where
  "WIFEXITED status = (WTERMSIG status = 0)"

definition WIFSIGNALED :: "int \<Rightarrow> bool" where
  \<comment> \<open>\<open>((signed char) ((status & 0x7f) + 1) >> 1) > 0\<close>\<close>
  "WIFSIGNALED status =
     (let t = (status AND 0x7f) + 1; c = (if 128 \<le> t then t - 256 else t)
      in 0 < drop_bit 1 c)"

definition exit_status :: "int \<Rightarrow> int" where
  "exit_status e = push_bit 8 e"

subsection \<open>The interpreter's state and its surroundings\<close>

datatype event =
    Print string                 \<comment> \<open>\<open>printf\<close> to standard output\<close>
  | Chdir "string option"        \<comment> \<open>\<open>chdir\<close> called with this pointer\<close>
  | Kill int                     \<comment> \<open>\<open>kill(pid, SIGKILL)\<close>\<close>
  | Fork command int             \<comment> \<open>\<open>fork\<close> returned this pid to the parent\<close>
  | Wait int                     \<comment> \<open>\<open>waitpid(pid, &lfStatus, 0)\<close> called\<close>
  | Perror string                \<comment> \<open>\<open>perror\<close> to standard error\<close>

datatype child = Running | Ended int   \<comment> \<open>\<open>Ended status\<close>: terminated, not yet waited for\<close>

text \<open>
  The five globals, the kernel's table of the children that have not been waited for,
  and what the process has done so far. \<open>bgRunning\<close> has 1000 slots in the source; the
  loops over it run over all of its slots, whatever their number.
\<close>

record shell =
  foregroundOnly :: int
  sigTSTPChange :: int
  lfStatus :: int
  bgStatus :: int
  bgRunning :: "int list"
  children :: "int \<rightharpoonup> child"
  events :: "event list"

definition initial :: shell where
  "initial = \<lparr>foregroundOnly = 0, sigTSTPChange = 0, lfStatus = - 1234, bgStatus = 0,
     bgRunning = replicate 1000 0, children = Map.empty, events = []\<rparr>"

text \<open>What one call of \<open>runShell\<close> gets from outside the program.\<close>

record surroundings =
  getpid :: int                  \<comment> \<open>the interpreter's process identifier\<close>
  line_size :: nat               \<comment> \<open>the size of the buffer \<open>getline\<close> allocated for the line\<close>
  HOME :: "string option"        \<comment> \<open>\<open>getenv("HOME")\<close>\<close>
  fork_ret :: int                \<comment> \<open>what \<open>fork\<close> returns\<close>
  child_end :: int               \<comment> \<open>the wait status with which the new child terminates\<close>
  child_early :: bool            \<comment> \<open>the new child has terminated when the parent polls it\<close>
  toggle_during_wait :: bool     \<comment> \<open>the toggle signal arrives while the parent waits for
                                     the new child, before the child has terminated\<close>
  kill_ret :: "int \<Rightarrow> int"        \<comment> \<open>what \<open>kill\<close> returns for a pid\<close>
  childStatus0 :: int            \<comment> \<open>the value the uninitialised local \<open>childStatus\<close> starts with\<close>

definition emit :: "event \<Rightarrow> shell \<Rightarrow> shell" where
  "emit e s = s\<lparr>events := events s @ [e]\<rparr>"

definition printf :: "string \<Rightarrow> shell \<Rightarrow> shell" where
  "printf str s = emit (Print str) s"

subsection \<open>The signal handler and the notice (lines 66-76 and 92-101)\<close>

definition tstpHandler :: "shell \<Rightarrow> shell" where
  "tstpHandler s =
     (if foregroundOnly s = 0 then s\<lparr>foregroundOnly := 1\<rparr>
      else s\<lparr>foregroundOnly := 0\<rparr>)\<lparr>sigTSTPChange := 1\<rparr>"

definition entering :: string where
  "entering = ''Entering foreground-only mode (& is now ignored)'' @ [NL]"

definition exiting :: string where
  "exiting = ''Exiting foreground-only mode'' @ [NL]"

definition announce :: "shell \<Rightarrow> shell" where
  "announce s =
     (if sigTSTPChange s = 1 \<and> foregroundOnly s = 1 then
        (printf entering s)\<lparr>sigTSTPChange := 0\<rparr>
      else if sigTSTPChange s = 1 \<and> foregroundOnly s = 0 then
        (printf exiting s)\<lparr>sigTSTPChange := 0\<rparr>
      else s)"

subsection \<open>Background children (lines 117-137)\<close>

text \<open>
  \<open>waitpid(pid, &status, WNOHANG)\<close>: 0 while the child runs; the pid, with the status
  written, when it has terminated, and the child is then gone from the table; \<open>-1\<close>, with
  the status untouched, when the process has no such child.
\<close>

definition waitpid_nohang :: "int \<Rightarrow> shell \<Rightarrow> int \<times> int option \<times> shell" where
  "waitpid_nohang pid s =
     (case children s pid of
        None \<Rightarrow> (- 1, None, s)
      | Some Running \<Rightarrow> (0, None, s)
      | Some (Ended status) \<Rightarrow> (pid, Some status, s\<lparr>children := (children s)(pid := None)\<rparr>))"

definition done_exit :: "int \<Rightarrow> int \<Rightarrow> string" where
  "done_exit pid v = ''background pid '' @ dec pid @ '' is done. exit value '' @ dec v @ [NL]"

definition done_signal :: "int \<Rightarrow> int \<Rightarrow> string" where
  "done_signal pid v =
     ''background pid '' @ dec pid @ '' is done: terminated by signal '' @ dec v @ [NL]"

text \<open>
  The loop over the slots of \<open>bgRunning\<close>: the slots to visit, the local \<open>childStatus\<close>
  (written only by a \<open>waitpid\<close> that found a terminated child) and the state; it returns
  the slots as it leaves them.
\<close>

fun sweep_loop :: "int list \<Rightarrow> int \<Rightarrow> shell \<Rightarrow> int list \<times> int \<times> shell" where
  "sweep_loop [] childStatus s = ([], childStatus, s)"
| "sweep_loop (p # ps) childStatus s =
     (if p = 0 then
        (case sweep_loop ps childStatus s of (ps', r) \<Rightarrow> (p # ps', r))
      else
        (case waitpid_nohang p s of
           (testPID, written, s1) \<Rightarrow>
             (let childStatus1 = (case written of None \<Rightarrow> childStatus | Some v \<Rightarrow> v) in
              if testPID \<noteq> 0 \<and> WIFEXITED childStatus1 then
                (case sweep_loop ps childStatus1
                        (printf (done_exit p (WEXITSTATUS childStatus1)) s1) of
                   (ps', r) \<Rightarrow> (0 # ps', r))
              else if testPID \<noteq> 0 \<and> WIFSIGNALED childStatus1 then
                (case sweep_loop ps childStatus1
                        (printf (done_signal p (WTERMSIG childStatus1)) s1) of
                   (ps', r) \<Rightarrow> (0 # ps', r))
              else
                (case sweep_loop ps childStatus1 s1 of (ps', r) \<Rightarrow> (p # ps', r)))))"

definition sweep :: "int \<Rightarrow> shell \<Rightarrow> shell" where
  "sweep childStatus s =
     (case sweep_loop (bgRunning s) childStatus s of
        (slots, childStatus', s') \<Rightarrow> s'\<lparr>bgRunning := slots\<rparr>)"

subsection \<open>Built-in commands and external commands (lines 253-377)\<close>

datatype outcome =
    Returned int shell           \<comment> \<open>\<open>runShell\<close> returned this value\<close>
  | Exited int shell             \<comment> \<open>the interpreter called \<open>exit\<close>\<close>
  | Child command                \<comment> \<open>\<open>fork\<close> returned 0: this is the child, which runs lines 313-354\<close>
  | Faulted fault

definition arg_at :: "command \<Rightarrow> nat \<Rightarrow> string option" where
  \<comment> \<open>\<open>com.args[j]\<close>\<close>
  "arg_at com j = (if j < length (args com) then args com ! j else None)"

definition attempting :: "int \<Rightarrow> string" where
  "attempting pid = ''Attempting to kill '' @ dec pid @ [NL]"

definition not_killed :: "int \<Rightarrow> string" where
  "not_killed pid = ''Process '' @ dec pid @ '' was not killed'' @ [NL]"

definition killed :: "int \<Rightarrow> string" where
  "killed pid = ''Process '' @ dec pid @ '' was killed'' @ [NL]"

definition started :: "int \<Rightarrow> string" where
  "started pid = ''PID '' @ dec pid @ '' started in background '' @ [NL]"

definition interrupted :: string where
  "interrupted = ''terminated by signal 2'' @ [NL]"

fun kill_loop :: "(int \<Rightarrow> int) \<Rightarrow> int list \<Rightarrow> shell \<Rightarrow> shell" where
  "kill_loop k [] s = s"
| "kill_loop k (p # ps) s =
     (if p = 0 then kill_loop k ps s
      else
        (let s1 = emit (Kill p) (printf (attempting p) s);
             s2 = (if k p = - 1 then printf (not_killed p) s1 else printf (killed p) s1)
         in kill_loop k ps s2))"

fun store_pid :: "int \<Rightarrow> int list \<Rightarrow> int list" where
  \<comment> \<open>the first slot that holds 0 takes the pid; with no such slot nothing is stored\<close>
  "store_pid pid [] = []"
| "store_pid pid (p # ps) = (if p = 0 then pid # ps else p # store_pid pid ps)"

definition status_text :: "int \<Rightarrow> string" where
  "status_text st =
     (if st = - 1234 then ''exit value 0'' @ [NL]
      else if WIFEXITED st then ''exit value '' @ dec (WEXITSTATUS st) @ [NL]
      else ''terminated by signal '' @ dec (WTERMSIG st) @ [NL])"

text \<open>
  The parent after \<open>fork\<close>. A background child is announced, stored and polled once, the
  poll writing to \<open>bgStatus\<close>. A foreground child is waited for with
  \<open>waitpid(spawnPid, &lfStatus, 0)\<close>. When the child terminates the call writes its status
  to \<open>lfStatus\<close>. When the toggle signal arrives first, the handler runs and the call
  returns \<open>-1\<close> at once (the handler is installed with \<open>sa_flags = 0\<close>, so the call is not
  restarted), \<open>lfStatus\<close> is not written and the child goes on running; what \<open>waitpid\<close>
  returned is not looked at, and the test of \<open>lfStatus\<close> that follows reads the old value.
  No other signal has a handler.
\<close>

definition parent :: "surroundings \<Rightarrow> command \<Rightarrow> shell \<Rightarrow> shell" where
  "parent orc com s =
     (let spawnPid = fork_ret orc in
      if background com = 1 then
        (let s1 = s\<lparr>children := (children s)
                      (spawnPid \<mapsto> (if child_early orc then Ended (child_end orc) else Running))\<rparr>;
             s2 = printf (started spawnPid) s1;
             s3 = s2\<lparr>bgRunning := store_pid spawnPid (bgRunning s2)\<rparr>
         in case waitpid_nohang spawnPid s3 of
              (r, written, s4) \<Rightarrow>
                (case written of None \<Rightarrow> s4 | Some v \<Rightarrow> s4\<lparr>bgStatus := v\<rparr>))
      else
        (let s0 = emit (Wait spawnPid) s;
             s1 = (if toggle_during_wait orc
                   then tstpHandler (s0\<lparr>children := (children s0)(spawnPid \<mapsto> Running)\<rparr>)
                   else s0\<lparr>lfStatus := child_end orc\<rparr>)
         in if lfStatus s1 = 2 \<and> background com = 0
            then printf interrupted s1 else s1))"

definition dispatch :: "surroundings \<Rightarrow> command \<Rightarrow> shell \<Rightarrow> outcome" where
  "dispatch orc com s =
     (case arg_at com 0 of
        None \<Rightarrow> Faulted Null_pointer
      | Some a0 \<Rightarrow>
          if a0 = ''exit'' then Exited 0 (kill_loop (kill_ret orc) (bgRunning s) s)
          else if a0 = ''cd'' then
            (if numArgs com = 1 then Returned 0 (emit (Chdir (HOME orc)) s)
             else if numArgs com = 2 then Returned 0 (emit (Chdir (arg_at com 1)) s)
             else Returned 0 s)
          else if a0 = ''status'' then Returned 0 (printf (status_text (lfStatus s)) s)
          else if fork_ret orc = - 1 then Exited 1 (emit (Perror (''fork()'' @ [NL])) s)
          else if fork_ret orc = 0 then Child com
          else Returned 0 (parent orc com (emit (Fork com (fork_ret orc)) s)))"

subsection \<open>One iteration: \<open>runShell\<close>\<close>

text \<open>
  The input is what \<open>getline\<close> read, newline included, or \<open>None\<close> when it returned \<open>-1\<close>.
\<close>

definition prompted :: "surroundings \<Rightarrow> shell \<Rightarrow> shell" where
  \<comment> \<open>lines 92-141: the notice, the background children, the prompt\<close>
  "prompted orc s0 = printf '':'' (sweep (childStatus0 orc) (announce s0))"

definition foreground_mode :: "shell \<Rightarrow> command \<Rightarrow> command" where
  \<comment> \<open>lines 248-251: \<open>if (foregroundOnly == 1) com.background = 0;\<close>\<close>
  "foreground_mode s com = (if foregroundOnly s = 1 then com\<lparr>background := 0\<rparr> else com)"

definition execute :: "surroundings \<Rightarrow> shell \<Rightarrow> string list \<Rightarrow> int \<Rightarrow> outcome" where
  \<comment> \<open>lines 200-377: from the tokens to the end of the function\<close>
  "execute orc s arguments argIndex =
     (case build arguments argIndex of
        Inl e \<Rightarrow> Faulted e
      | Inr com \<Rightarrow>
          if numArgs com = 0 then Returned 0 s
          else dispatch orc (foreground_mode s com) s)"

definition runShell :: "surroundings \<Rightarrow> string option \<Rightarrow> shell \<Rightarrow> outcome" where
  "runShell orc inp s0 =
     (let s = prompted orc s0 in
      case inp of
        None \<Rightarrow> Returned (- 1) (printf [NL] s)
      | Some raw \<Rightarrow>
          (case expand_line (getpid orc) (line_size orc) raw of
             Inl e \<Rightarrow> Faulted e
           | Inr line \<Rightarrow>
               (case scan line of
                  Inl e \<Rightarrow> Faulted e
                | Inr Comment \<Rightarrow> Returned 0 (printf [NL] s)
                | Inr (Tokens arguments argIndex) \<Rightarrow> execute orc s arguments argIndex)))"

subsection \<open>Notions used in the statements\<close>

definition is_notice :: "event \<Rightarrow> bool" where
  "is_notice e = (e = Print entering \<or> e = Print exiting)"

definition notices :: "shell \<Rightarrow> event list" where
  \<comment> \<open>the mode-change notices printed so far\<close>
  "notices s = filter is_notice (events s)"

fun final :: "outcome \<Rightarrow> shell option" where
  \<comment> \<open>the state in which the interpreter leaves \<open>runShell\<close>\<close>
  "final (Returned k s) = Some s"
| "final (Exited k s) = Some s"
| "final (Child com) = None"
| "final (Faulted e) = None"

definition is_redirect :: "string \<Rightarrow> bool" where
  "is_redirect token = (token = ''<'' \<or> token = ''>'')"

definition before_redirect :: "string list \<Rightarrow> string list" where
  \<comment> \<open>the tokens before the first \<open><\<close> or \<open>>\<close>\<close>
  "before_redirect arguments = takeWhile (\<lambda>token. \<not> is_redirect token) arguments"

definition argIndex_of :: "string list \<Rightarrow> int" where
  \<comment> \<open>\<open>argIndex\<close> as a function of the tokens: one less than the index of the first
     redirection operator, or 1000\<close>
  "argIndex_of arguments =
     (if before_redirect arguments = arguments then 1000
      else int (length (before_redirect arguments)) - 1)"

definition parse :: "int \<Rightarrow> nat \<Rightarrow> string \<Rightarrow> fault + (string list \<times> command) option" where
  \<comment> \<open>expansion, token loop and builder in a row: the tokens and the command of a line,
     or \<open>None\<close> for a comment\<close>
  "parse shellPID alloc raw =
     (case expand_line shellPID alloc raw of
        Inl e \<Rightarrow> Inl e
      | Inr line \<Rightarrow>
          (case scan line of
             Inl e \<Rightarrow> Inl e
           | Inr Comment \<Rightarrow> Inr None
           | Inr (Tokens arguments argIndex) \<Rightarrow>
               (case build arguments argIndex of
                  Inl e \<Rightarrow> Inl e
                | Inr com \<Rightarrow> Inr (Some (arguments, com)))))"

definition is_fork :: "event \<Rightarrow> bool" where
  "is_fork e = (case e of Fork com pid \<Rightarrow> True | _ \<Rightarrow> False)"

definition is_chdir :: "event \<Rightarrow> bool" where
  "is_chdir e = (case e of Chdir d \<Rightarrow> True | _ \<Rightarrow> False)"

text \<open>
  \<open>main\<close> calls \<open>runShell\<close> for ever and ignores what it returns. Here it is run on the
  lines of a finite input, each with the surroundings of its iteration, as long as the
  interpreter neither exits nor faults.
\<close>

fun main_loop :: "(surroundings \<times> string option) list \<Rightarrow> shell \<Rightarrow> outcome" where
  "main_loop [] s = Returned 0 s"
| "main_loop ((orc, inp) # rest) s =
     (case runShell orc inp s of
        Returned k s' \<Rightarrow> main_loop rest s'
      | Exited k s' \<Rightarrow> Exited k s'
      | Child com \<Rightarrow> Child com
      | Faulted e \<Rightarrow> Faulted e)"

definition example_surroundings :: surroundings where
  "example_surroundings = \<lparr>getpid = 4567, line_size = 120, HOME = Some ''/root'',
     fork_ret = 100, child_end = exit_status 1, child_early = True,
     toggle_during_wait = False, kill_ret = (\<lambda>pid. 0), childStatus0 = 0\<rparr>"

definition child_exits :: "int \<Rightarrow> int \<Rightarrow> shell \<Rightarrow> shell" where
  \<comment> \<open>outside the interpreter: a running child terminates with this status\<close>
  "child_exits pid status s =
     (case children s pid of
        Some Running \<Rightarrow> s\<lparr>children := (children s)(pid \<mapsto> Ended status)\<rparr>
      | _ \<Rightarrow> s)"

definition interrupting :: surroundings where
  \<comment> \<open>an iteration whose child is 101, will exit with 0, and is still running when the
     toggle signal arrives during the wait for it\<close>
  "interrupting = example_surroundings
     \<lparr>fork_ret := 101, child_end := exit_status 0, toggle_during_wait := True\<rparr>"

definition after_false :: shell where
  \<comment> \<open>the state after \<open>false\<close> (child 100, exit value 1), entered in the initial state\<close>
  "after_false = \<lparr>foregroundOnly = 0, sigTSTPChange = 0, lfStatus = exit_status 1,
     bgStatus = 0, bgRunning = replicate 1000 0, children = Map.empty,
     events = [Print '':'',
               Fork \<lparr>args = [Some ''false''], com_input = [], com_output = [],
                      background = 0, numArgs = 1\<rparr> 100,
               Wait 100]\<rparr>"

definition left_waiting :: shell where
  \<comment> \<open>the state after \<open>false\<close> (child 100, exit value 1) and then \<open>sleep 5\<close> (child 101),
     entered in the initial state, the toggle signal arriving during the second wait\<close>
  "left_waiting = \<lparr>foregroundOnly = 1, sigTSTPChange = 1, lfStatus = exit_status 1,
     bgStatus = 0, bgRunning = replicate 1000 0, children = [101 \<mapsto> Running],
     events = [Print '':'',
               Fork \<lparr>args = [Some ''false''], com_input = [], com_output = [],
                      background = 0, numArgs = 1\<rparr> 100,
               Wait 100,
               Print '':'',
               Fork \<lparr>args = [Some ''sleep'', Some ''5''], com_input = [], com_output = [],
                      background = 0, numArgs = 2\<rparr> 101,
               Wait 101]\<rparr>"

definition reaped_early :: shell where
  \<comment> \<open>the state after \<open>sleep 5 &\<close>, entered in the initial state, when the child 100 had
     terminated before the parent polled it\<close>
  "reaped_early = \<lparr>foregroundOnly = 0, sigTSTPChange = 0, lfStatus = - 1234,
     bgStatus = exit_status 1, bgRunning = 100 # replicate 999 0, children = Map.empty,
     events = [Print '':'',
               Fork \<lparr>args = [Some ''sleep'', Some ''5'', None], com_input = [], com_output = [],
                      background = 1, numArgs = 3\<rparr> 100,
               Print (started 100)]\<rparr>"

section \<open>Properties\<close>

subsection \<open>Evaluation of the parsing stages\<close>

lemma expand_line_newline: "expand_line shellPID alloc [NL] = Inr []"
  by (simp add: expand_line_def strip_newline_def NL_def NUL_def expand_loop.simps cstr_def)

lemma expand_line_ampersand: "expand_line shellPID alloc [CHR ''&'', NL] = Inr ''&''"
  by (simp add: expand_line_def strip_newline_def NL_def NUL_def expand_loop.simps cstr_def)

lemma scan_empty: "scan [] = Inr (Tokens [] 1000)"
  by (simp add: scan_def strtok_def)

lemma scan_ampersand: "scan ''&'' = Inr (Tokens [''&''] 1000)"
  by (simp add: scan_def strtok_def TAB_def)

lemma dec_4567: "dec 4567 = ''4567''"
  by (simp add: dec_def dec_nat.simps digit_def)

lemma arg_at_foreground_mode [simp]: "arg_at (foreground_mode s com) j = arg_at com j"
  by (simp add: foreground_mode_def arg_at_def)

lemma numArgs_foreground_mode [simp]: "numArgs (foreground_mode s com) = numArgs com"
  by (simp add: foreground_mode_def)

subsection \<open>What the blocks leave unchanged\<close>

lemma tstpHandler_fields:
  "foregroundOnly (tstpHandler s) = (if foregroundOnly s = 0 then 1 else 0)"
  "sigTSTPChange (tstpHandler s) = 1"
  "events (tstpHandler s) = events s"
  "lfStatus (tstpHandler s) = lfStatus s"
  "bgRunning (tstpHandler s) = bgRunning s"
  by (simp_all add: tstpHandler_def)

lemma toggles:
  assumes "foregroundOnly s = 0 \<or> foregroundOnly s = 1"
  shows "foregroundOnly ((tstpHandler ^^ n) s) =
           (if even n then foregroundOnly s else 1 - foregroundOnly s)
       \<and> events ((tstpHandler ^^ n) s) = events s
       \<and> (0 < n \<longrightarrow> sigTSTPChange ((tstpHandler ^^ n) s) = 1)"
  using assms by (induction n) (auto simp: tstpHandler_fields)

lemma announce_pending:
  assumes "foregroundOnly t = 0 \<or> foregroundOnly t = 1" "sigTSTPChange t = 1"
  shows "events (announce t) =
           events t @ [Print (if foregroundOnly t = 1 then entering else exiting)]"
    and "sigTSTPChange (announce t) = 0"
    and "foregroundOnly (announce t) = foregroundOnly t"
  using assms by (auto simp: announce_def printf_def emit_def)

lemma announce_idle: "sigTSTPChange s = 0 \<Longrightarrow> announce s = s"
  by (simp add: announce_def)

lemma announce_fields:
  "foregroundOnly (announce s) = foregroundOnly s"
  "lfStatus (announce s) = lfStatus s"
  "bgRunning (announce s) = bgRunning s"
  "bgStatus (announce s) = bgStatus s"
  "children (announce s) = children s"
  by (simp_all add: announce_def printf_def emit_def)

lemma emit_fields [simp]:
  "foregroundOnly (emit e s) = foregroundOnly s"
  "sigTSTPChange (emit e s) = sigTSTPChange s"
  "lfStatus (emit e s) = lfStatus s"
  "bgStatus (emit e s) = bgStatus s"
  "bgRunning (emit e s) = bgRunning s"
  "children (emit e s) = children s"
  "events (emit e s) = events s @ [e]"
  by (simp_all add: emit_def)

lemma printf_fields [simp]:
  "foregroundOnly (printf m s) = foregroundOnly s"
  "sigTSTPChange (printf m s) = sigTSTPChange s"
  "lfStatus (printf m s) = lfStatus s"
  "bgStatus (printf m s) = bgStatus s"
  "bgRunning (printf m s) = bgRunning s"
  "children (printf m s) = children s"
  "events (printf m s) = events s @ [Print m]"
  by (simp_all add: printf_def)

lemma waitpid_nohang_fields:
  assumes "waitpid_nohang p s = (r, w, s')"
  shows "events s' = events s" and "foregroundOnly s' = foregroundOnly s"
    and "sigTSTPChange s' = sigTSTPChange s" and "lfStatus s' = lfStatus s"
    and "bgStatus s' = bgStatus s" and "bgRunning s' = bgRunning s"
  using assms by (auto simp: waitpid_nohang_def split: option.splits child.splits)

lemma sweep_loop_fields:
  "sweep_loop ps cs s = (ps', cs', s') \<Longrightarrow>
     foregroundOnly s' = foregroundOnly s \<and> sigTSTPChange s' = sigTSTPChange s \<and>
     lfStatus s' = lfStatus s \<and> bgStatus s' = bgStatus s"
proof (induction ps arbitrary: cs s ps' cs' s')
  case Nil
  then show ?case by simp
next
  case (Cons p ps)
  show ?case
  proof (cases "p = 0")
    case True
    with Cons show ?thesis by (auto split: prod.splits)
  next
    case False
    obtain r w s1 where w: "waitpid_nohang p s = (r, w, s1)"
      by (cases "waitpid_nohang p s") auto
    note f = waitpid_nohang_fields [OF w]
    from Cons.prems False w show ?thesis
      by (auto simp: Let_def f split: prod.splits if_splits dest!: Cons.IH)
  qed
qed

lemma sweep_fields:
  "foregroundOnly (sweep cs s) = foregroundOnly s"
  "sigTSTPChange (sweep cs s) = sigTSTPChange s"
  "lfStatus (sweep cs s) = lfStatus s"
  "bgStatus (sweep cs s) = bgStatus s"
  by (auto simp: sweep_def split: prod.splits dest!: sweep_loop_fields)

lemma prompted_fields:
  "foregroundOnly (prompted orc s) = foregroundOnly s"
  "lfStatus (prompted orc s) = lfStatus s"
  "bgStatus (prompted orc s) = bgStatus s"
  by (simp_all add: prompted_def sweep_fields announce_fields)

text \<open>
  An iteration appends to the events. A class of events that holds none of the
  completion messages of the background loop is left as it is by that loop.
\<close>

lemma sweep_loop_filter:
  assumes "\<And>p v. \<not> P (Print (done_exit p v))" and "\<And>p v. \<not> P (Print (done_signal p v))"
  shows "sweep_loop ps cs s = (ps', cs', s') \<Longrightarrow> filter P (events s') = filter P (events s)"
proof (induction ps arbitrary: cs s ps' cs' s')
  case Nil
  then show ?case by simp
next
  case (Cons p ps)
  show ?case
  proof (cases "p = 0")
    case True
    with Cons show ?thesis by (auto split: prod.splits)
  next
    case False
    obtain r w s1 where w: "waitpid_nohang p s = (r, w, s1)"
      by (cases "waitpid_nohang p s") auto
    note f = waitpid_nohang_fields(1) [OF w]
    from Cons.prems False w show ?thesis
      by (auto simp: Let_def f assms split: prod.splits if_splits dest!: Cons.IH)
  qed
qed

lemma sweep_filter:
  assumes "\<And>p v. \<not> P (Print (done_exit p v))" and "\<And>p v. \<not> P (Print (done_signal p v))"
  shows "filter P (events (sweep cs s)) = filter P (events s)"
  using sweep_loop_filter [of P, OF assms]
  by (auto simp: sweep_def split: prod.splits)

lemma kill_loop_filter:
  assumes "\<And>p. \<not> P (Print (attempting p))" and "\<And>p. \<not> P (Print (not_killed p))"
    and "\<And>p. \<not> P (Print (killed p))" and "\<And>p. \<not> P (Kill p)"
  shows "filter P (events (kill_loop k ps s)) = filter P (events s)"
  by (induction ps arbitrary: s) (simp_all add: Let_def assms)

lemma parent_filter:
  assumes "\<And>p. \<not> P (Print (started p))" and "\<not> P (Print interrupted)"
    and "\<And>p. \<not> P (Wait p)"
  shows "filter P (events (parent orc com s)) = filter P (events s)"
proof (cases "background com = 1")
  case True
  obtain r w s4 where w: "waitpid_nohang (fork_ret orc)
      ((printf (started (fork_ret orc))
         (s\<lparr>children := (children s)(fork_ret orc \<mapsto>
              (if child_early orc then Ended (child_end orc) else Running))\<rparr>))
       \<lparr>bgRunning := store_pid (fork_ret orc) (bgRunning s)\<rparr>) = (r, w, s4)"
    by (metis prod_cases3)
  from True waitpid_nohang_fields(1) [OF w] w show ?thesis
    by (auto simp: parent_def Let_def assms split: option.splits)
next
  case False
  then show ?thesis by (simp add: parent_def Let_def assms tstpHandler_fields)
qed

subsection \<open>The token loop\<close>

lemma before_redirect_all:
  "(before_redirect a = a) = (\<forall>x\<in>set a. \<not> is_redirect x)"
  by (simp add: before_redirect_def takeWhile_eq_all_conv)

lemma before_redirect_snoc:
  "before_redirect (acc @ [t]) =
     (if before_redirect acc = acc \<and> \<not> is_redirect t then acc @ [t] else before_redirect acc)"
proof (cases "before_redirect acc = acc")
  case True
  then have all: "\<forall>x\<in>set acc. \<not> is_redirect x"
    by (simp add: before_redirect_all)
  then have "before_redirect (acc @ [t]) = acc @ (if is_redirect t then [] else [t])"
    by (simp add: before_redirect_def)
  with True show ?thesis by simp
next
  case False
  then obtain x where "x \<in> set acc" and "\<not> \<not> is_redirect x"
    by (auto simp: before_redirect_all)
  then have "before_redirect (acc @ [t]) = before_redirect acc"
    unfolding before_redirect_def by (rule takeWhile_append1)
  with False show ?thesis by simp
qed

lemma length_before_redirect: "length (before_redirect a) \<le> length a"
  by (simp add: before_redirect_def length_takeWhile_le)

lemma argIndex_of_snoc:
  assumes "length acc < 512"
  shows "argIndex_of (acc @ [token]) =
    (if (token = ''<'' \<or> token = ''>'') \<and> argIndex_of acc = 1000 then int (length acc) - 1 else argIndex_of acc)"
proof (cases "before_redirect acc = acc")
  case True
  then show ?thesis by (simp add: argIndex_of_def before_redirect_snoc is_redirect_def)
next
  case False
  have ne: "int (length (before_redirect acc)) - 1 \<noteq> 1000"
    using assms length_before_redirect [of acc] by linarith
  from False have b: "before_redirect (acc @ [token]) = before_redirect acc"
    by (simp add: before_redirect_snoc)
  have "length (before_redirect acc) \<noteq> length (acc @ [token])"
    using length_before_redirect [of acc] by simp
  then have c: "before_redirect acc \<noteq> acc @ [token]"
    by auto
  from False ne c show ?thesis unfolding argIndex_of_def b by simp
qed

lemma token_loop_argIndex:
  "token_loop t acc k = Inr (Tokens arguments argIndex) \<Longrightarrow> length acc \<le> 512 \<Longrightarrow>
   k = argIndex_of acc \<Longrightarrow> argIndex = argIndex_of arguments \<and> length arguments \<le> 512"
proof (induction t acc k rule: token_loop.induct)
  case (1 arguments' argIndex')
  then show ?case by auto
next
  case (2 token rest acc k)
  from "2.prems"(1) have lt: "length acc < 512" and nc: "\<not> (take 1 token = ''#'' \<and> acc = [])"
    by (auto simp: Let_def split: if_splits)
  let ?k = "if (token = ''<'' \<or> token = ''>'') \<and> k = 1000 then int (length acc) - 1 else k"
  have a: "\<not> 512 \<le> int (length acc)" using lt by simp
  have b: "\<not> (take 1 token = ''#'' \<and> int (length acc) = 0)" using nc by simp
  have "token_loop (Some (token, rest)) acc k = token_loop (strtok rest '' '') (acc @ [token]) ?k"
    using lt nc by (auto simp: Let_def)
  with "2.prems"(1)
  have run: "token_loop (strtok rest '' '') (acc @ [token]) ?k = Inr (Tokens arguments argIndex)"
    by simp
  have k: "?k = argIndex_of (acc @ [token])"
    unfolding argIndex_of_snoc [OF lt] "2.prems"(3) ..
  from lt have len: "length (acc @ [token]) \<le> 512" by simp
  show ?case
    by (rule "2.IH" [OF refl a b run len k])
qed

lemma scan_argIndex:
  assumes "scan line = Inr (Tokens arguments argIndex)"
  shows "argIndex = argIndex_of arguments" and "length arguments \<le> 512"
proof -
  have k: "1000 = argIndex_of []" by (simp add: argIndex_of_def before_redirect_def)
  from token_loop_argIndex [OF assms [unfolded scan_def] _ k]
  show "argIndex = argIndex_of arguments" and "length arguments \<le> 512" by simp_all
qed

subsection \<open>The command builder\<close>

lemma map_nth_take: "n \<le> length a \<Longrightarrow> map (\<lambda>j. Some (a ! j)) [0..<n] = map Some (take n a)"
  by (rule nth_equalityI) simp_all

lemma take_before_redirect: "take (length (before_redirect a)) a = before_redirect a"
  unfolding before_redirect_def by (rule takeWhile_eq_take [symmetric])

lemma build_shape:
  assumes "build arguments argIndex = Inr com"
  shows "arguments \<noteq> []"
    and "background com = (if last arguments = ''&'' then 1 else 0)"
    and "numArgs com = (if argIndex = 1000 then int (length arguments) else argIndex + 1)"
    and "args com = map (\<lambda>j. if int (length arguments) - 1 = int j \<and> last arguments = ''&'' then None
                               else Some (arguments ! j)) [0..<nat (numArgs com)]"
    and "redirect_loop arguments [0..<length arguments - 1] ([], []) = Inr (com_input com, com_output com)"
proof -
  from assms show ne: "arguments \<noteq> []"
    by (auto simp: build_def)
  then have l: "arguments ! nat (int (length arguments) - 1) = last arguments"
    by (simp add: last_conv_nth nat_diff_distrib')
  have n: "nat (int (length arguments) - 1) = length arguments - 1" by simp
  from assms ne l n
  show "background com = (if last arguments = ''&'' then 1 else 0)"
    and "numArgs com = (if argIndex = 1000 then int (length arguments) else argIndex + 1)"
    and "args com = map (\<lambda>j. if int (length arguments) - 1 = int j \<and> last arguments = ''&'' then None
                               else Some (arguments ! j)) [0..<nat (numArgs com)]"
    and "redirect_loop arguments [0..<length arguments - 1] ([], []) = Inr (com_input com, com_output com)"
    by (auto simp: build_def Let_def split: sum.splits if_splits)
qed


lemma filter_upt_last:
  assumes "j < n" and "P j" and "\<forall>k. j < k \<and> k < n \<longrightarrow> \<not> P k"
  shows "filter P [0..<n] = filter P [0..<j] @ [j]"
proof -
  have "[0..<j + (n - j)] = [0..<j] @ [j..<j + (n - j)]"
    by (rule upt_add_eq_append) simp
  with assms(1) have "[0..<n] = [0..<j] @ [j] @ [Suc j..<n]"
    by (simp add: upt_conv_Cons)
  moreover have "filter P [Suc j..<n] = []"
    using assms(3) by (auto simp: filter_empty_conv)
  ultimately show ?thesis using assms(2) by simp
qed

lemma redirect_loop_result:
  "redirect_loop a js io = Inr io' \<Longrightarrow>
     fst io' = (if filter (\<lambda>j. a ! j = ''<'') js = [] then fst io
                else a ! (last (filter (\<lambda>j. a ! j = ''<'') js) + 1)) \<and>
     snd io' = (if filter (\<lambda>j. a ! j = ''>'') js = [] then snd io
                else a ! (last (filter (\<lambda>j. a ! j = ''>'') js) + 1))"
proof (induction js arbitrary: io)
  case Nil
  then show ?case by simp
next
  case (Cons j js)
  obtain inp outp where io: "io = (inp, outp)" by (cases io)
  let ?io = "(if a ! j = ''<'' then a ! (j + 1) else inp, if a ! j = ''>'' then a ! (j + 1) else outp)"
  from Cons.prems io have run: "redirect_loop a js ?io = Inr io'"
    by (simp split: if_splits)
  from Cons.IH [OF run] io show ?case
    by auto
qed

lemma args_without_redirect:
  assumes "arguments \<noteq> []"
  shows "map (\<lambda>j. if int (length arguments) - 1 = int j \<and> last arguments = ''&'' then None
                   else Some (arguments ! j)) [0..<length arguments]
       = (if last arguments = ''&'' then map Some (butlast arguments) @ [None] else map Some arguments)"
proof (cases "last arguments = ''&''")
  case True
  have "map (\<lambda>j. if int (length arguments) - 1 = int j \<and> last arguments = ''&'' then None
                   else Some (arguments ! j)) [0..<length arguments]
       = map Some (butlast arguments) @ [None]"
    using assms True
    by (intro nth_equalityI) (auto simp: nth_append nth_butlast)
  with True show ?thesis by simp
next
  case False
  then show ?thesis
    by (intro nth_equalityI) auto
qed

lemma args_with_redirect:
  assumes "n < length arguments"
  shows "map (\<lambda>j. if int (length arguments) - 1 = int j \<and> last arguments = ''&'' then None
                   else Some (arguments ! j)) [0..<n] = map Some (take n arguments)"
  using assms by (intro nth_equalityI) auto


lemma set_before_redirect: "x \<in> set (before_redirect a) \<Longrightarrow> x \<in> set a \<and> \<not> is_redirect x"
  unfolding before_redirect_def by (auto dest: set_takeWhileD)

lemma before_redirect_butlast:
  assumes "before_redirect a \<noteq> a"
  shows "set (before_redirect a) \<subseteq> set (butlast a)"
proof -
  have len: "length (before_redirect a) < length a"
    using assms length_before_redirect [of a] take_before_redirect [of a]
    by (metis le_neq_implies_less take_all_iff order_refl)
  have "before_redirect a = take (length (before_redirect a)) (butlast a)"
    using len take_before_redirect [of a] by (simp add: take_butlast)
  then show ?thesis
    by (metis set_take_subset)
qed

subsection \<open>Variable expansion\<close>

text \<open>The example of the program's description: one pair, well inside the line.\<close>

lemma expand_line_echo: "expand_line 4567 (10 + k) (''echo $$'' @ [NL]) = Inr ''echo 4567''"
  by (simp add: expand_line_def strip_newline_def NL_def NUL_def expand_loop.simps cstr_def
      poke_def dec_4567)

text \<open>
  In the smallest buffer that \<open>getline\<close> may return for \<open>$$ $$\<close>, seven bytes, the expanded
  line and its terminator do not fit.
\<close>

lemma expand_line_overrun: "expand_line 4567 7 (''$$ $$'' @ [NL]) = Inl Out_of_bounds"
  by (simp add: expand_line_def strip_newline_def NL_def NUL_def expand_loop.simps cstr_def
      poke_def dec_4567)

text \<open>
  C1. Each pair \<open>$$\<close> of a line is to become the decimal process identifier, every other
  character staying as it is. Let the buffer have eight bytes or more, so that nothing is
  written outside it. The loop runs to the length the line had when it was read,
  so after an expansion has made the line longer its end is not scanned: with process
  identifier 4567 the second pair of \<open>$$ $$\<close> is left as it is. And \<open>expand\<close> stays set
  across other characters, so the two \<open>$\<close> of \<open>$a$\<close> count as a pair: the \<open>a\<close> is
  overwritten and the first \<open>$\<close> stays.
\<close>


theorem C1_expansion_misses_pairs:
  "expand_line 4567 (8 + k) (''$$ $$'' @ [NL]) = Inr ''4567 $$'' \<and>
   expand_line 4567 (8 + k) (''$a$'' @ [NL]) = Inr ''$4567''"
  by (simp add: expand_line_def strip_newline_def NL_def NUL_def expand_loop.simps cstr_def
      poke_def dec_4567)

subsection \<open>Tokens\<close>

text \<open>
  C9. Space and tab are to separate tokens everywhere in the line. Only the first call of
  \<open>strtok\<close> has the tab among its delimiters: in \<open>echo a<TAB>b\<close> the tab ends no token, and
  the second token is \<open>a<TAB>b\<close>.
\<close>


theorem C9_tab_inside_later_token:
  "scan (''echo a'' @ [TAB] @ ''b'') = Inr (Tokens [''echo'', ''a'' @ [TAB] @ ''b''] 1000)"
  by (simp add: scan_def strtok_def TAB_def)

subsection \<open>Lines without a command\<close>

text \<open>
  A line is a comment exactly when its first character after the leading spaces and tabs
  is \<open>#\<close>; the iteration then prints a newline and returns 0, with nothing else done.
  A line of spaces and tabs only has no token.
\<close>

lemma token_loop_Comment:
  "token_loop t acc k = Inr Comment \<Longrightarrow> acc = []"
proof (induction t acc k rule: token_loop.induct)
  case (1 arguments argIndex)
  then show ?case by simp
next
  case (2 token rest acc k)
  show ?case
  proof (rule ccontr)
    assume ne: "acc \<noteq> []"
    with "2.prems" have lt: "\<not> 512 \<le> int (length acc)"
      and run: "token_loop (strtok rest '' '') (acc @ [token])
             (if (token = ''<'' \<or> token = ''>'') \<and> k = 1000 then int (length acc) - 1 else k)
           = Inr Comment"
      by (auto simp: Let_def split: if_splits)
    from ne have nc: "\<not> (take 1 token = ''#'' \<and> int (length acc) = 0)" by simp
    from "2.IH" [OF refl lt nc run] show False by simp
  qed
qed

lemma strtok_first:
  assumes "dropWhile (\<lambda>c. c = CHR '' '' \<or> c = TAB) line = c # cs"
  shows "\<exists>token rest. strtok line [CHR '' '', TAB] = Some (c # token, rest)"
proof -
  have "\<not> (c = CHR '' '' \<or> c = TAB)"
    using assms hd_dropWhile [of "\<lambda>c. c = CHR '' '' \<or> c = TAB" line] by auto
  then show ?thesis
    unfolding strtok_def by (simp add: assms Let_def)
qed

lemma strtok_none:
  assumes "dropWhile (\<lambda>c. c = CHR '' '' \<or> c = TAB) line = []"
  shows "strtok line [CHR '' '', TAB] = None"
  unfolding strtok_def by (simp add: assms)

lemma token_loop_first:
  "token_loop (Some (c # token, rest)) [] 1000 = Inr Comment \<longleftrightarrow> c = CHR ''#''"
proof (cases "c = CHR ''#''")
  case True
  then show ?thesis by simp
next
  case False
  have "token_loop (Some (c # token, rest)) [] 1000 \<noteq> Inr Comment"
  proof
    assume "token_loop (Some (c # token, rest)) [] 1000 = Inr Comment"
    with False obtain k where
      "token_loop (strtok rest '' '') [c # token] k = Inr Comment"
      by (simp add: Let_def)
    from token_loop_Comment [OF this] show False by simp
  qed
  with False show ?thesis by simp
qed

lemma scan_Comment:
  "scan line = Inr Comment \<longleftrightarrow>
     take 1 (dropWhile (\<lambda>c. c = CHR '' '' \<or> c = TAB) line) = ''#''"
proof (cases "dropWhile (\<lambda>c. c = CHR '' '' \<or> c = TAB) line")
  case Nil
  from strtok_none [OF Nil] show ?thesis by (simp add: scan_def Nil)
next
  case (Cons c cs)
  from strtok_first [OF Cons] obtain token rest
    where "strtok line [CHR '' '', TAB] = Some (c # token, rest)" by blast
  then have "scan line = Inr Comment \<longleftrightarrow> c = CHR ''#''"
    unfolding scan_def by (simp only: token_loop_first)
  then show ?thesis by (simp add: Cons)
qed

lemma comment_line:
  assumes "expand_line (getpid orc) (line_size orc) raw = Inr line" and "scan line = Inr Comment"
  shows "runShell orc (Some raw) s = Returned 0 (printf [NL] (prompted orc s))"
  using assms by (simp add: runShell_def)


lemma expand_loop_no_dollar:
  "CHR ''$'' \<notin> set line \<Longrightarrow> nread \<le> length line \<Longrightarrow>
     expand_loop shellPID alloc nread i expand line = Inr line"
proof (induction shellPID alloc nread i expand line rule: expand_loop.induct)
  case (1 shellPID alloc nread i expand line)
  show ?case
  proof (cases "i < nread")
    case False
    then show ?thesis by (subst expand_loop.simps) simp
  next
    case True
    with "1.prems" have in_range: "\<not> length line \<le> i" by simp
    then have "line ! i \<in> set line" by simp
    with "1.prems" have c: "line ! i \<noteq> CHR ''$''" by metis
    have "expand_loop shellPID alloc nread i expand line =
        expand_loop shellPID alloc nread (i + 1) expand line"
      using True in_range c by (subst expand_loop.simps) simp
    also have "\<dots> = Inr line"
      using "1.IH"(3) [OF _ _ _ _ "1.prems"] True in_range c by simp
    finally show ?thesis .
  qed
qed

lemma strip_newline_blank:
  assumes "set ws \<subseteq> {CHR '' '', TAB}"
  shows "strip_newline ((ws @ [NL]) @ [NUL]) = ws @ [NUL, NUL]"
proof -
  have all: "\<forall>c\<in>set ws. c \<noteq> NUL \<and> c \<noteq> NL"
    using assms by (auto simp: NUL_def NL_def TAB_def)
  then have "takeWhile (\<lambda>c. c \<noteq> NUL \<and> c \<noteq> NL) ((ws @ [NL]) @ [NUL]) = ws"
    by simp
  then show ?thesis
    by (simp add: strip_newline_def Let_def nth_append)
qed

lemma expand_line_blank:
  assumes "set ws \<subseteq> {CHR '' '', TAB}"
  shows "expand_line shellPID alloc (ws @ [NL]) = Inr ws"
proof -
  have nd: "CHR ''$'' \<notin> set (ws @ [NUL, NUL])"
    using assms by (auto simp: NUL_def TAB_def)
  have "\<forall>c\<in>set ws. c \<noteq> NUL"
    using assms by (auto simp: NUL_def TAB_def)
  then have c: "cstr (ws @ [NUL, NUL]) = ws"
    by (simp add: cstr_def)
  show ?thesis
    unfolding expand_line_def strip_newline_blank [OF assms]
    by (simp add: expand_loop_no_dollar [OF nd] c)
qed

lemma scan_blank:
  assumes "set ws \<subseteq> {CHR '' '', TAB}"
  shows "scan ws = Inr (Tokens [] 1000)"
proof -
  have "dropWhile (\<lambda>c. c = CHR '' '' \<or> c = TAB) ws = []"
    using assms by auto
  from strtok_none [OF this] show ?thesis by (simp add: scan_def)
qed

lemma blank_line_reads_before_array:
  assumes "set ws \<subseteq> {CHR '' '', TAB}"
  shows "runShell orc (Some (ws @ [NL])) s = Faulted Out_of_bounds"
  by (simp add: runShell_def expand_line_blank [OF assms] scan_blank [OF assms] execute_def
      build_def)

text \<open>
  C8. A line with no token is to give no command and to return to the prompt. For the
  empty line (as for every line of spaces and tabs) the token loop does not run, \<open>i\<close> is
  decremented to \<open>-1\<close>, and \<open>arguments[-1]\<close> is read and handed to \<open>strcmp\<close> before the
  test \<open>numArgs == 0\<close> is reached.
\<close>

theorem C8_empty_line_reads_before_array:
  "runShell orc (Some [NL]) s = Faulted Out_of_bounds"
  by (simp add: runShell_def expand_line_newline scan_empty execute_def build_def)

subsection \<open>The first argument at dispatch\<close>

text \<open>
  C10. A command that reaches the comparisons with the built-in names is to have a first
  argument. The line \<open>&\<close> has one token; its slot in \<open>com.args\<close> is skipped and stays
  \<open>NULL\<close>, \<open>numArgs\<close> is 1, the test \<open>numArgs == 0\<close> lets it through, and
  \<open>strcmp(com.args[0], "exit")\<close> gets a null pointer.
\<close>

theorem C10_lone_ampersand_null_argument:
  "runShell orc (Some (''&'' @ [NL])) s = Faulted Null_pointer"
  by (simp add: runShell_def expand_line_ampersand scan_ampersand execute_def build_def
      dispatch_def
      arg_at_def [of "\<lparr>args = _, com_input = _, com_output = _, background = _, numArgs = _\<rparr>"])

subsection \<open>The foreground-only switch\<close>

lemma not_notice:
  "\<not> is_notice (Print (done_exit p v))" "\<not> is_notice (Print (done_signal p v))"
  "\<not> is_notice (Print '':'')" "\<not> is_notice (Print [NL])"
  "\<not> is_notice (Print (status_text st))"
  "\<not> is_notice (Chdir d)" "\<not> is_notice (Kill p)" "\<not> is_notice (Fork com p)"
  "\<not> is_notice (Wait p)" "\<not> is_notice (Perror m)"
  "\<not> is_notice (Print (attempting p))"
  "\<not> is_notice (Print (killed p))"
  "\<not> is_notice (Print (not_killed p))"
  "\<not> is_notice (Print (started p))"
  "\<not> is_notice (Print interrupted)"
  by (simp_all add: is_notice_def done_exit_def done_signal_def entering_def exiting_def status_text_def
       attempting_def killed_def not_killed_def started_def interrupted_def)

lemma kill_loop_notices: "notices (kill_loop k ps s) = notices s"
  unfolding notices_def by (rule kill_loop_filter) (simp_all add: not_notice)

lemma parent_notices: "notices (parent orc com s) = notices s"
  unfolding notices_def by (rule parent_filter) (simp_all add: not_notice)

lemma prompted_notices: "notices (prompted orc s) = notices (announce s)"
  by (simp add: notices_def prompted_def not_notice sweep_filter)

lemma dispatch_notices: "final (dispatch orc com s) = Some s' \<Longrightarrow> notices s' = notices s"
  using kill_loop_notices [of "kill_ret orc" "bgRunning s" s]
    parent_notices [of orc com "emit (Fork com (fork_ret orc)) s"]
  by (auto simp: dispatch_def notices_def not_notice split: option.splits if_splits)

lemma execute_notices: "final (execute orc s a k) = Some s' \<Longrightarrow> notices s' = notices s"
  by (auto simp: execute_def split: sum.splits if_splits dest: dispatch_notices)

lemma runShell_notices:
  "final (runShell orc inp s) = Some s' \<Longrightarrow> notices s' = notices (announce s)"
  by (auto simp: runShell_def Let_def prompted_notices notices_def [of "printf _ _"] not_notice
        split: option.splits sum.splits scanned.splits dest!: execute_notices)
     (simp_all add: notices_def prompted_notices [unfolded notices_def])

lemma runShell_interrupted_read:
  "runShell orc None s = Returned (- 1) (printf [NL] (prompted orc s))"
  by (simp add: runShell_def)

text \<open>
  C6, as the code has it. A delivery of the signal flips the mode and sets the flag
  \<open>sigTSTPChange\<close>; the handler prints nothing. The flag is one bit, so the deliveries
  that arrive before the next iteration, however many, share one notice: at its start the
  iteration prints exactly one, naming the mode then current (after an even number of
  deliveries, the mode there was before them), and clears the flag. With the flag clear
  nothing is printed. The rest of the iteration prints no notice.
\<close>

theorem C6_pending_toggles_share_one_notice:
  assumes "foregroundOnly s = 0 \<or> foregroundOnly s = 1" and "0 < n"
  shows "foregroundOnly (tstpHandler s) = 1 - foregroundOnly s
       \<and> sigTSTPChange (tstpHandler s) = 1
       \<and> foregroundOnly ((tstpHandler ^^ n) s) =
           (if even n then foregroundOnly s else 1 - foregroundOnly s)
       \<and> events (announce ((tstpHandler ^^ n) s)) =
           events s @ [Print (if foregroundOnly ((tstpHandler ^^ n) s) = 1
                              then entering else exiting)]
       \<and> sigTSTPChange (announce ((tstpHandler ^^ n) s)) = 0
       \<and> (sigTSTPChange s = 0 \<longrightarrow> announce s = s)
       \<and> (final (runShell orc inp s) = Some s' \<longrightarrow> notices s' = notices (announce s))"
proof -
  let ?t = "(tstpHandler ^^ n) s"
  from toggles [OF assms(1), of n] assms(2)
  have mode: "foregroundOnly ?t = (if even n then foregroundOnly s else 1 - foregroundOnly s)"
    and quiet: "events ?t = events s" and flag: "sigTSTPChange ?t = 1"
    by simp_all
  from mode assms(1) have bit: "foregroundOnly ?t = 0 \<or> foregroundOnly ?t = 1"
    by auto
  have flip: "foregroundOnly (tstpHandler s) = 1 - foregroundOnly s"
    using assms(1) by (auto simp: tstpHandler_fields)
  show ?thesis
    using flip mode announce_pending [OF bit flag] quiet
    by (auto simp: tstpHandler_fields announce_idle dest: runShell_notices)
qed

theorem C6_witness:
  "(foregroundOnly initial = 0 \<or> foregroundOnly initial = 1) \<and> (0::nat) < 3
   \<and> foregroundOnly ((tstpHandler ^^ 3) initial) = 1
   \<and> events (announce ((tstpHandler ^^ 3) initial)) = [Print entering]
   \<and> sigTSTPChange initial = 0
   \<and> final (runShell example_surroundings None initial)
       = Some (printf [NL] (prompted example_surroundings initial))
   \<and> notices (printf [NL] (prompted example_surroundings initial)) = notices (announce initial)"
  using C6_pending_toggles_share_one_notice
    [of initial 3 example_surroundings None "printf [NL] (prompted example_surroundings initial)"]
  by (simp add: initial_def runShell_interrupted_read)

text \<open>
  C6, as stated, asks for one notice for each delivery, also when several arrive before
  the next iteration. Two deliveries from the initial state are followed by one notice,
  and it announces the leaving of a mode that no notice said was entered.
\<close>

theorem C6_two_toggles_one_notice:
  "notices (announce (tstpHandler (tstpHandler initial))) = [Print exiting]"
  by (simp add: notices_def announce_def tstpHandler_def initial_def is_notice_def)

subsection \<open>The argument vector and the redirections\<close>

lemma build_of_scanned:
  assumes scan: "scan line = Inr (Tokens arguments argIndex)"
    and build: "build arguments argIndex = Inr com"
  shows "numArgs com = int (length (before_redirect arguments))
       \<and> args com =
           (if before_redirect arguments = arguments \<and> last arguments = ''&''
            then map Some (butlast arguments) @ [None]
            else map Some (before_redirect arguments))
       \<and> Some ''<'' \<notin> set (args com) \<and> Some ''>'' \<notin> set (args com)
       \<and> (''&'' \<notin> set (butlast arguments) \<longrightarrow> Some ''&'' \<notin> set (args com))
       \<and> background com = (if last arguments = ''&'' then 1 else 0)
       \<and> (p + 1 < length arguments \<and> arguments ! p = ''<'' \<and>
            (\<forall>k. p < k \<and> k + 1 < length arguments \<longrightarrow> arguments ! k \<noteq> ''<'')
              \<longrightarrow> com_input com = arguments ! (p + 1))
       \<and> (q + 1 < length arguments \<and> arguments ! q = ''>'' \<and>
            (\<forall>k. q < k \<and> k + 1 < length arguments \<longrightarrow> arguments ! k \<noteq> ''>'')
              \<longrightarrow> com_output com = arguments ! (q + 1))"
proof -
  note shape = build_shape [OF build]
  note idx = scan_argIndex [OF scan]
  have ne: "arguments \<noteq> []" by (rule shape(1))
  have num: "numArgs com = int (length (before_redirect arguments))"
  proof (cases "before_redirect arguments = arguments")
    case True
    then show ?thesis using shape(3) idx(1) by (simp add: argIndex_of_def)
  next
    case False
    have "int (length (before_redirect arguments)) - 1 \<noteq> 1000"
      using idx(2) length_before_redirect [of arguments] by linarith
    with False show ?thesis using shape(3) idx(1) by (simp add: argIndex_of_def)
  qed
  have args: "args com =
           (if before_redirect arguments = arguments \<and> last arguments = ''&''
            then map Some (butlast arguments) @ [None]
            else map Some (before_redirect arguments))"
  proof (cases "before_redirect arguments = arguments")
    case True
    with num have "nat (numArgs com) = length arguments" by simp
    with shape(4) args_without_redirect [OF ne] True show ?thesis by simp
  next
    case False
    then have "length (before_redirect arguments) < length arguments"
      using length_before_redirect [of arguments] take_before_redirect [of arguments]
      by (metis le_neq_implies_less take_all_iff order_refl)
    from args_with_redirect [OF this] shape(4) num False show ?thesis
      by (simp add: take_before_redirect)
  qed
  have nored: "Some ''<'' \<notin> set (args com) \<and> Some ''>'' \<notin> set (args com)"
  proof (cases "before_redirect arguments = arguments")
    case True
    then have "\<forall>x\<in>set arguments. \<not> is_redirect x" by (simp add: before_redirect_all)
    then have "''<'' \<notin> set arguments \<and> ''>'' \<notin> set arguments"
      by (auto simp: is_redirect_def)
    then show ?thesis using True by (auto simp: args dest: in_set_butlastD)
  next
    case False
    then show ?thesis using set_before_redirect [of _ arguments]
      by (auto simp: args is_redirect_def)
  qed
  have noamp: "''&'' \<notin> set (butlast arguments) \<longrightarrow> Some ''&'' \<notin> set (args com)"
  proof (cases "before_redirect arguments = arguments")
    case True
    have "set arguments = set (butlast arguments) \<union> {last arguments}"
      using ne by (subst append_butlast_last_id [symmetric, of arguments]) (simp_all del: append_butlast_last_id)
    then have "''&'' \<notin> set (butlast arguments) \<Longrightarrow> last arguments \<noteq> ''&'' \<Longrightarrow> ''&'' \<notin> set arguments"
      by auto
    then show ?thesis using True by (auto simp: args)
  next
    case False
    from before_redirect_butlast [OF this] False show ?thesis by (auto simp: args)
  qed
  note rl = redirect_loop_result [OF shape(5)]
  have inp: "com_input com = arguments ! (p + 1)"
    if "p + 1 < length arguments" "arguments ! p = ''<''"
       "\<forall>k. p < k \<and> k + 1 < length arguments \<longrightarrow> arguments ! k \<noteq> ''<''" for p
  proof -
    have "filter (\<lambda>j. arguments ! j = ''<'') [0..<length arguments - 1]
        = filter (\<lambda>j. arguments ! j = ''<'') [0..<p] @ [p]"
      using that by (intro filter_upt_last) auto
    with rl show ?thesis by simp
  qed
  have outp: "com_output com = arguments ! (q + 1)"
    if "q + 1 < length arguments" "arguments ! q = ''>''"
       "\<forall>k. q < k \<and> k + 1 < length arguments \<longrightarrow> arguments ! k \<noteq> ''>''" for q
  proof -
    have "filter (\<lambda>j. arguments ! j = ''>'') [0..<length arguments - 1]
        = filter (\<lambda>j. arguments ! j = ''>'') [0..<q] @ [q]"
      using that by (intro filter_upt_last) auto
    with rl show ?thesis by simp
  qed
  show ?thesis
  proof (intro conjI impI)
    show "numArgs com = int (length (before_redirect arguments))" by (rule num)
    show "args com =
           (if before_redirect arguments = arguments \<and> last arguments = ''&''
            then map Some (butlast arguments) @ [None]
            else map Some (before_redirect arguments))" by (rule args)
    show "Some ''<'' \<notin> set (args com)" and "Some ''>'' \<notin> set (args com)"
      using nored by blast+
    show "Some ''&'' \<notin> set (args com)" if "''&'' \<notin> set (butlast arguments)"
      using noamp that by blast
    show "background com = (if last arguments = ''&'' then 1 else 0)" by (rule shape(2))
    show "com_input com = arguments ! (p + 1)"
      if "p + 1 < length arguments \<and> arguments ! p = ''<'' \<and>
            (\<forall>k. p < k \<and> k + 1 < length arguments \<longrightarrow> arguments ! k \<noteq> ''<'')"
      using that by (intro inp) blast+
    show "com_output com = arguments ! (q + 1)"
      if "q + 1 < length arguments \<and> arguments ! q = ''>'' \<and>
            (\<forall>k. q < k \<and> k + 1 < length arguments \<longrightarrow> arguments ! k \<noteq> ''>'')"
      using that by (intro outp) blast+
  qed
qed

lemma scan_sort: "scan ''sort < in > out'' = Inr (Tokens [''sort'', ''<'', ''in'', ''>'', ''out''] 0)"
  by (simp add: scan_def strtok_def TAB_def)

lemma build_sort:
  "build [''sort'', ''<'', ''in'', ''>'', ''out''] 0 =
     Inr \<lparr>args = [Some ''sort''], com_input = ''in'', com_output = ''out'', background = 0, numArgs = 1\<rparr>"
  by (simp add: build_def upt_rec)

text \<open>
  C2, as the code has it. For the tokens of a line from which a command is built: the
  argument vector ends just before the first \<open><\<close> or \<open>>\<close>, and \<open>numArgs\<close> is the number of
  tokens before it; \<open>com.input\<close> is the token after \<open><\<close> and \<open>com.output\<close> the token after
  \<open>>\<close> (after the last such operator that has a token after it, when there are several);
  the vector holds no redirection operator; a final \<open>&\<close> sets \<open>background\<close> and is not
  copied (without a redirection its slot, still counted by \<open>numArgs\<close>, stays \<open>NULL\<close>).
  An \<open>&\<close> can be in the vector only when it occurs as a token that is not the last.
\<close>

theorem C2_argument_vector_and_redirections:
  assumes scan: "scan line = Inr (Tokens arguments argIndex)"
    and build: "build arguments argIndex = Inr com"
  shows "numArgs com = int (length (before_redirect arguments))
       \<and> args com =
           (if before_redirect arguments = arguments \<and> last arguments = ''&''
            then map Some (butlast arguments) @ [None]
            else map Some (before_redirect arguments))
       \<and> Some ''<'' \<notin> set (args com) \<and> Some ''>'' \<notin> set (args com)
       \<and> (''&'' \<notin> set (butlast arguments) \<longrightarrow> Some ''&'' \<notin> set (args com))
       \<and> background com = (if last arguments = ''&'' then 1 else 0)
       \<and> (p + 1 < length arguments \<and> arguments ! p = ''<'' \<and>
            (\<forall>k. p < k \<and> k + 1 < length arguments \<longrightarrow> arguments ! k \<noteq> ''<'')
              \<longrightarrow> com_input com = arguments ! (p + 1))
       \<and> (q + 1 < length arguments \<and> arguments ! q = ''>'' \<and>
            (\<forall>k. q < k \<and> k + 1 < length arguments \<longrightarrow> arguments ! k \<noteq> ''>'')
              \<longrightarrow> com_output com = arguments ! (q + 1))"
  using scan build by (rule build_of_scanned)

theorem C2_witness:
  "scan ''sort < in > out'' = Inr (Tokens [''sort'', ''<'', ''in'', ''>'', ''out''] 0)
   \<and> build [''sort'', ''<'', ''in'', ''>'', ''out''] 0 =
       Inr \<lparr>args = [Some ''sort''], com_input = ''in'', com_output = ''out'',
            background = 0, numArgs = 1\<rparr>
   \<and> before_redirect [''sort'', ''<'', ''in'', ''>'', ''out''] = [''sort'']
   \<and> ''&'' \<notin> set (butlast [''sort'', ''<'', ''in'', ''>'', ''out''])
   \<and> [''sort'', ''<'', ''in'', ''>'', ''out''] ! 1 = ''<''
   \<and> [''sort'', ''<'', ''in'', ''>'', ''out''] ! 3 = ''>''
   \<and> com_input \<lparr>args = [Some ''sort''], com_input = ''in'', com_output = ''out'',
            background = 0, numArgs = 1\<rparr> = [''sort'', ''<'', ''in'', ''>'', ''out''] ! 2
   \<and> com_output \<lparr>args = [Some ''sort''], com_input = ''in'', com_output = ''out'',
            background = 0, numArgs = 1\<rparr> = [''sort'', ''<'', ''in'', ''>'', ''out''] ! 4"
  using C2_argument_vector_and_redirections [OF scan_sort build_sort, of 1 3]
  by (simp add: scan_sort build_sort before_redirect_def is_redirect_def)

text \<open>
  C2, as stated, has no \<open>&\<close> in the argument vector wherever the \<open>&\<close> stands. Only the
  final token is compared with \<open>&\<close>: in \<open>echo & hi\<close> it is an argument like the others.
\<close>

theorem C2_ampersand_kept_in_argv:
  "scan ''echo & hi'' = Inr (Tokens [''echo'', ''&'', ''hi''] 1000)
   \<and> build [''echo'', ''&'', ''hi''] 1000 =
       Inr \<lparr>args = [Some ''echo'', Some ''&'', Some ''hi''], com_input = [], com_output = [],
            background = 0, numArgs = 3\<rparr>"
  by (simp add: scan_def strtok_def TAB_def build_def upt_rec)

subsection \<open>From the line to the dispatch\<close>

lemma parse_stages:
  assumes "parse shellPID alloc raw = Inr (Some (arguments, com))"
  obtains line argIndex where "expand_line shellPID alloc raw = Inr line"
    and "scan line = Inr (Tokens arguments argIndex)"
    and "build arguments argIndex = Inr com"
  using assms by (auto simp: parse_def split: sum.splits scanned.splits)

lemma runShell_parse:
  assumes "parse (getpid orc) (line_size orc) raw = Inr (Some (arguments, com))"
  shows "runShell orc (Some raw) s =
     (if numArgs com = 0 then Returned 0 (prompted orc s)
      else dispatch orc (foreground_mode (prompted orc s) com) (prompted orc s))"
  using assms
  by (auto simp: parse_def runShell_def execute_def Let_def split: sum.splits scanned.splits)

lemma args_foreground_mode [simp]: "args (foreground_mode s com) = args com"
  by (simp add: foreground_mode_def)

lemma background_foreground_mode:
  "background (foreground_mode s com) = (if foregroundOnly s = 1 then 0 else background com)"
  by (simp add: foreground_mode_def)

lemma build_first_argument:
  assumes "build arguments argIndex = Inr com" and "arg_at com 0 = Some a0"
  shows "numArgs com \<noteq> 0"
proof
  assume "numArgs com = 0"
  with build_shape(4) [OF assms(1)] have "args com = []" by simp
  with assms(2) show False by (simp add: arg_at_def)
qed

lemma and_127: "(a::int) AND 0x7f = a mod 128"
proof -
  have "(0x7f::int) = mask 7" by (simp add: mask_eq_exp_minus_1)
  then have "a AND 0x7f = take_bit 7 a" by (simp add: take_bit_eq_mask)
  then show ?thesis by (simp add: take_bit_eq_mod)
qed

lemma WIFEXITED_exit_status: "WIFEXITED (exit_status e)"
  by (simp add: WIFEXITED_def WTERMSIG_def and_127 exit_status_def push_bit_eq_mult)

lemma WEXITSTATUS_exit_status:
  assumes "0 \<le> e" and "e < 256"
  shows "WEXITSTATUS (exit_status e) = e"
proof -
  have "(0xff00::int) = push_bit 8 (mask 8)" by (simp add: mask_eq_exp_minus_1 push_bit_eq_mult)
  then have "push_bit 8 e AND 0xff00 = push_bit 8 (e AND mask 8)"
    by (simp add: push_bit_and)
  also have "e AND mask 8 = e"
    using assms by (simp add: take_bit_eq_mask [symmetric] take_bit_eq_mod)
  finally show ?thesis by (simp add: WEXITSTATUS_def exit_status_def drop_bit_push_bit)
qed

lemma exit_status_not_sentinel: "0 \<le> e \<Longrightarrow> exit_status e \<noteq> - 1234"
  by (simp add: exit_status_def push_bit_eq_mult)

lemma status_text_exit:
  assumes "0 \<le> e" and "e < 256"
  shows "status_text (exit_status e) = ''exit value '' @ dec e @ [NL]"
  using assms
  by (simp add: status_text_def WIFEXITED_exit_status WEXITSTATUS_exit_status exit_status_not_sentinel)

lemma status_text_signal:
  assumes "0 < n" and "n < 127"
  shows "status_text (n + (if core then 128 else 0)) = ''terminated by signal '' @ dec n @ [NL]"
  using assms by (simp add: status_text_def WIFEXITED_def WTERMSIG_def and_127)

lemma status_text_sentinel: "status_text (- 1234) = ''exit value 0'' @ [NL]"
  by (simp add: status_text_def)


lemma parent_lfStatus:
  "lfStatus (parent orc com s) =
     (if background com = 1 \<or> toggle_during_wait orc then lfStatus s else child_end orc)"
proof (cases "background com = 1")
  case True
  obtain r w s4 where w: "waitpid_nohang (fork_ret orc)
      ((printf (started (fork_ret orc))
         (s\<lparr>children := (children s)(fork_ret orc \<mapsto>
              (if child_early orc then Ended (child_end orc) else Running))\<rparr>))
       \<lparr>bgRunning := store_pid (fork_ret orc) (bgRunning s)\<rparr>) = (r, w, s4)"
    by (metis prod_cases3)
  from True waitpid_nohang_fields(4) [OF w] w show ?thesis
    by (auto simp: parent_def Let_def split: option.splits)
next
  case False
  then show ?thesis by (simp add: parent_def Let_def tstpHandler_fields)
qed

lemma not_fork [simp]:
  "\<not> is_fork (Print m)" "\<not> is_fork (Chdir d)" "\<not> is_fork (Kill p)" "\<not> is_fork (Wait p)"
  by (simp_all add: is_fork_def)

lemma not_chdir [simp]:
  "\<not> is_chdir (Print m)" "\<not> is_chdir (Fork c p)" "\<not> is_chdir (Kill p)" "\<not> is_chdir (Wait p)"
  by (simp_all add: is_chdir_def)

lemma announce_filter:
  assumes "\<And>m. \<not> P (Print m)"
  shows "filter P (events (announce s)) = filter P (events s)"
  by (simp add: announce_def assms)

lemma prompted_filter:
  assumes "\<And>m. \<not> P (Print m)"
  shows "filter P (events (prompted orc s)) = filter P (events s)"
  by (simp add: prompted_def assms sweep_filter announce_filter)

lemma thousand_slots: "replicate 1000 (0::int) = 0 # replicate 999 0"
proof -
  have "(1000::nat) = Suc 999" by simp
  then show ?thesis by (simp only: replicate.simps)
qed

lemma example_fields [simp]:
  "fork_ret example_surroundings = 100"
  "child_end example_surroundings = exit_status 1"
  "child_early example_surroundings"
  "childStatus0 example_surroundings = 0"
  "\<not> toggle_during_wait example_surroundings"
  by (simp_all add: example_surroundings_def)

lemma example_parse [simp]:
  "getpid example_surroundings = 4567" "line_size example_surroundings = 120"
  "HOME example_surroundings = Some ''/root''"
  by (simp_all add: example_surroundings_def)

lemma sweep_loop_empty_slots:
  "sweep_loop (replicate n 0) cs s = (replicate n 0, cs, s)"
  by (induction n) simp_all

lemma prompted_initial: "prompted orc initial = printf '':'' initial"
  by (simp add: prompted_def announce_def sweep_def sweep_loop_empty_slots initial_def)


lemma parse_status:
  "parse shellPID alloc (''status'' @ [NL]) =
     Inr (Some ([''status''],
       \<lparr>args = [Some ''status''], com_input = [], com_output = [], background = 0, numArgs = 1\<rparr>))"
  by (simp add: parse_def expand_line_def strip_newline_def NL_def NUL_def expand_loop.simps
      cstr_def scan_def strtok_def TAB_def build_def)

subsection \<open>The built-in command \<open>status\<close>\<close>

text \<open>
  When the first argument of the command is \<open>status\<close>, the iteration prints the text for
  the recorded status \<open>lfStatus\<close> and returns; it leaves \<open>lfStatus\<close> as it was and adds
  no \<open>fork\<close> to what the interpreter has done. The wait for a foreground child records
  the status of the child when it is the termination of the child that ends the wait. No
  iteration gives \<open>lfStatus\<close> another value than the status of the child of that
  iteration.
\<close>

lemma kill_loop_lfStatus: "lfStatus (kill_loop k ps s) = lfStatus s"
  by (induction ps arbitrary: s) (simp_all add: Let_def)

lemma status_line:
  assumes "parse (getpid orc) (line_size orc) raw = Inr (Some (arguments, com))"
    and "arg_at com 0 = Some ''status''"
  shows "\<exists>s'. runShell orc (Some raw) s = Returned 0 s'
           \<and> events s' = events (prompted orc s) @ [Print (status_text (lfStatus s))]
           \<and> lfStatus s' = lfStatus s
           \<and> filter is_fork (events s') = filter is_fork (events s)"
proof -
  from assms(1) obtain line argIndex where "build arguments argIndex = Inr com"
    by (rule parse_stages)
  from build_first_argument [OF this assms(2)] have "numArgs com \<noteq> 0" .
  with runShell_parse [OF assms(1), of s] assms(2)
  have "runShell orc (Some raw) s
           = Returned 0 (printf (status_text (lfStatus s)) (prompted orc s))"
    by (simp add: dispatch_def prompted_fields)
  then show ?thesis
    by (simp add: prompted_fields prompted_filter)
qed

lemma foreground_line_records_status:
  assumes "parse (getpid orc) (line_size orc) raw = Inr (Some (arguments, com))"
    and "arg_at com 0 = Some a0"
    and "a0 \<noteq> ''exit''" and "a0 \<noteq> ''cd''" and "a0 \<noteq> ''status''"
    and "0 < fork_ret orc"
    and "foregroundOnly s = 1 \<or> last arguments \<noteq> ''&''"
  shows "\<exists>s'. runShell orc (Some raw) s = Returned 0 s'
           \<and> lfStatus s' = (if toggle_during_wait orc then lfStatus s else child_end orc)"
proof -
  from assms(1) obtain line argIndex where build: "build arguments argIndex = Inr com"
    by (rule parse_stages)
  from build_first_argument [OF build assms(2)] have n0: "numArgs com \<noteq> 0" .
  let ?p = "prompted orc s"
  let ?c = "foreground_mode ?p com"
  have run: "runShell orc (Some raw) s = Returned 0 (parent orc ?c (emit (Fork ?c (fork_ret orc)) ?p))"
    using runShell_parse [OF assms(1), of s] n0 assms(2-6)
    by (simp add: dispatch_def)
  have "background ?c \<noteq> 1"
    using assms(7) build_shape(2) [OF build]
    by (auto simp: foreground_mode_def prompted_fields)
  then show ?thesis
    unfolding run by (simp add: parent_lfStatus prompted_fields)
qed

lemma runShell_lfStatus:
  assumes "final (runShell orc inp s) = Some s'"
  shows "lfStatus s' = lfStatus s \<or> lfStatus s' = child_end orc"
proof -
  have d: "lfStatus t' = lfStatus t \<or> lfStatus t' = child_end orc"
    if "final (dispatch orc c t) = Some t'" for c t t'
    using that parent_lfStatus [of orc c "emit (Fork c (fork_ret orc)) t"]
    by (auto simp: dispatch_def kill_loop_lfStatus split: option.splits if_splits)
  have e: "lfStatus t' = lfStatus t \<or> lfStatus t' = child_end orc"
    if "final (execute orc t a k) = Some t'" for t a k t'
    using that by (auto simp: execute_def split: sum.splits if_splits dest: d)
  from assms show ?thesis
    using e [of "prompted orc s"]
    by (auto simp: runShell_def Let_def prompted_fields
        split: option.splits sum.splits scanned.splits)
qed

lemma parse_false:
  "parse shellPID alloc (''false'' @ [NL]) =
     Inr (Some ([''false''],
       \<lparr>args = [Some ''false''], com_input = [], com_output = [], background = 0, numArgs = 1\<rparr>))"
  by (simp add: parse_def expand_line_def strip_newline_def NL_def NUL_def expand_loop.simps
      cstr_def scan_def strtok_def TAB_def build_def upt_rec)

lemma parse_sleep_5:
  "parse shellPID alloc (''sleep 5'' @ [NL]) =
     Inr (Some ([''sleep'', ''5''],
       \<lparr>args = [Some ''sleep'', Some ''5''], com_input = [], com_output = [], background = 0,
        numArgs = 2\<rparr>))"
  by (simp add: parse_def expand_line_def strip_newline_def NL_def NUL_def expand_loop.simps
      cstr_def scan_def strtok_def TAB_def build_def upt_rec)

lemma interrupting_fields [simp]:
  "fork_ret interrupting = 101" "child_end interrupting = exit_status 0"
  "toggle_during_wait interrupting" "getpid interrupting = 4567" "line_size interrupting = 120"
  "childStatus0 interrupting = 0"
  by (simp_all add: interrupting_def example_surroundings_def)

lemma exit_status_values: "exit_status 1 = 256" "exit_status 0 = 0"
  by (simp_all add: exit_status_def)

lemma run_false:
  "runShell example_surroundings (Some (''false'' @ [NL])) initial = Returned 0 after_false"
  using runShell_parse [OF parse_false, of example_surroundings initial]
  by (simp add: dispatch_def arg_at_def prompted_initial foreground_mode_def parent_def
      exit_status_values)
     (simp add: initial_def after_false_def exit_status_values)

lemma prompted_after_false: "prompted orc after_false = printf '':'' after_false"
  by (simp add: prompted_def announce_def sweep_def sweep_loop_empty_slots after_false_def)

lemma run_sleep:
  "runShell interrupting (Some (''sleep 5'' @ [NL])) after_false = Returned 0 left_waiting"
  using runShell_parse [OF parse_sleep_5, of interrupting after_false]
  by (simp add: dispatch_def arg_at_def prompted_after_false foreground_mode_def parent_def
      exit_status_values tstpHandler_def)
     (simp add: after_false_def left_waiting_def exit_status_values)

lemma prompted_left_waiting:
  "prompted orc (child_exits 101 (exit_status 0) left_waiting) =
     printf '':'' (printf entering
       (left_waiting\<lparr>sigTSTPChange := 0, children := [101 \<mapsto> Ended (exit_status 0)]\<rparr>))"
  by (simp add: prompted_def announce_def sweep_def sweep_loop_empty_slots child_exits_def
      left_waiting_def)


lemma dec_1: "dec 1 = ''1''"
  by (simp add: dec_def dec_nat.simps digit_def)

text \<open>
  C4. \<open>status\<close> is to print the exit value of the last foreground command. Enter \<open>false\<close>,
  which exits with 1, then \<open>sleep 5\<close>, and let the toggle signal arrive while the
  interpreter waits for \<open>sleep\<close>: \<open>waitpid\<close> returns \<open>-1\<close>, nothing is written to
  \<open>lfStatus\<close>, and the interpreter goes back to the prompt with \<open>sleep\<close> still running.
  \<open>sleep\<close> then exits with 0. \<open>status\<close>, entered next, prints \<open>exit value 1\<close>, the exit value
  of the command before the last.
\<close>

theorem C4_status_after_interrupted_wait:
  "main_loop [(example_surroundings, Some (''false'' @ [NL])),
              (interrupting, Some (''sleep 5'' @ [NL]))] initial
     = Returned 0 left_waiting
   \<and> map_option (\<lambda>s. (events s, lfStatus s, children s 101))
       (final (runShell example_surroundings (Some (''status'' @ [NL]))
                 (child_exits 101 (exit_status 0) left_waiting)))
     = Some ([Print '':'',
              Fork \<lparr>args = [Some ''false''], com_input = [], com_output = [],
                     background = 0, numArgs = 1\<rparr> 100,
              Wait 100,
              Print '':'',
              Fork \<lparr>args = [Some ''sleep'', Some ''5''], com_input = [], com_output = [],
                     background = 0, numArgs = 2\<rparr> 101,
              Wait 101,
              Print (''Entering foreground-only mode (& is now ignored)'' @ [NL]),
              Print '':'',
              Print (''exit value 1'' @ [NL])],
             exit_status 1,
             Some (Ended (exit_status 0)))"
proof -
  have a: "main_loop [(example_surroundings, Some (''false'' @ [NL])),
              (interrupting, Some (''sleep 5'' @ [NL]))] initial
     = Returned 0 left_waiting"
    using run_false run_sleep by simp
  have "runShell example_surroundings (Some (''status'' @ [NL]))
          (child_exits 101 (exit_status 0) left_waiting)
      = Returned 0 (printf (status_text (exit_status 1))
          (prompted example_surroundings (child_exits 101 (exit_status 0) left_waiting)))"
    using runShell_parse [OF parse_status, of example_surroundings
        "child_exits 101 (exit_status 0) left_waiting"]
    by (simp add: dispatch_def arg_at_def prompted_fields)
       (simp add: child_exits_def left_waiting_def)
  then have b: "map_option (\<lambda>s. (events s, lfStatus s, children s 101))
       (final (runShell example_surroundings (Some (''status'' @ [NL]))
                 (child_exits 101 (exit_status 0) left_waiting)))
     = Some (events left_waiting @ [Print entering, Print '':'', Print (''exit value 1'' @ [NL])],
             exit_status 1, Some (Ended (exit_status 0)))"
    using status_text_exit [of 1]
    by (simp add: prompted_left_waiting dec_1) (simp add: left_waiting_def)
  from a b show ?thesis
    by (simp add: left_waiting_def entering_def)
qed

subsection \<open>The built-in command \<open>cd\<close>\<close>

lemma parse_cd_a_b:
  "parse shellPID alloc (''cd a b'' @ [NL]) =
     Inr (Some ([''cd'', ''a'', ''b''],
       \<lparr>args = [Some ''cd'', Some ''a'', Some ''b''], com_input = [], com_output = [],
        background = 0, numArgs = 3\<rparr>))"
  by (simp add: parse_def expand_line_def strip_newline_def NL_def NUL_def expand_loop.simps
      cstr_def scan_def strtok_def TAB_def build_def upt_rec)

lemma args_with_final_word:
  assumes "build arguments argIndex = Inr com" and "scan line = Inr (Tokens arguments argIndex)"
    and "last arguments \<noteq> ''&''"
  shows "numArgs com = int (length (before_redirect arguments))"
    and "args com = map Some (before_redirect arguments)"
  using build_of_scanned [OF assms(2) assms(1)] assms(3) by simp_all

lemma before_redirect_hd:
  assumes "arguments \<noteq> []" and "\<not> is_redirect (hd arguments)"
  shows "before_redirect arguments \<noteq> []" and "hd (before_redirect arguments) = hd arguments"
  using assms by (cases arguments; simp add: before_redirect_def)+

lemma before_redirect_nth:
  "k < length (before_redirect a) \<Longrightarrow> before_redirect a ! k = a ! k"
  unfolding before_redirect_def by (rule takeWhile_nth)

lemma parse_cd_tmp_out:
  "parse shellPID alloc (''cd /tmp > out'' @ [NL]) =
     Inr (Some ([''cd'', ''/tmp'', ''>'', ''out''],
       \<lparr>args = [Some ''cd'', Some ''/tmp''], com_input = [], com_output = ''out'', background = 0,
        numArgs = 2\<rparr>))"
  by (simp add: parse_def expand_line_def strip_newline_def NL_def NUL_def expand_loop.simps
      cstr_def scan_def strtok_def TAB_def build_def upt_rec)

lemma parse_cd:
  "parse shellPID alloc (''cd'' @ [NL]) =
     Inr (Some ([''cd''],
       \<lparr>args = [Some ''cd''], com_input = [], com_output = [], background = 0, numArgs = 1\<rparr>))"
  by (simp add: parse_def expand_line_def strip_newline_def NL_def NUL_def expand_loop.simps
      cstr_def scan_def strtok_def TAB_def build_def upt_rec)

lemma cd_with_final_ampersand:
  "map_option events (final (runShell example_surroundings (Some (''cd &'' @ [NL])) initial))
     = Some [Print '':'', Chdir None]"
  "map_option events (final (runShell example_surroundings (Some (''cd /tmp &'' @ [NL])) initial))
     = Some [Print '':'']"
  by (simp_all add: runShell_def expand_line_def strip_newline_def NL_def NUL_def
      expand_loop.simps cstr_def scan_def strtok_def TAB_def execute_def build_def upt_rec
      dispatch_def arg_at_def prompted_initial)
     (simp_all add: initial_def)

text \<open>
  C7, as the code has it. Take a line whose first token is \<open>cd\<close> and whose last token is
  not \<open>&\<close>; its arguments are the tokens after \<open>cd\<close> and before the first redirection
  operator, if there is one. With no argument \<open>chdir\<close> is called with the value of \<open>HOME\<close>,
  with exactly one argument it is called with that argument, and with more than one it is
  not called at all. Nothing else in the iteration calls \<open>chdir\<close>.
\<close>

theorem C7_cd_changes_directory_for_at_most_one_argument:
  assumes "parse (getpid orc) (line_size orc) raw = Inr (Some (arguments, com))"
    and "hd arguments = ''cd''"
    and "last arguments \<noteq> ''&''"
  shows "runShell orc (Some raw) s =
           Returned 0
             (if length (before_redirect arguments) = 1
                then emit (Chdir (HOME orc)) (prompted orc s)
              else if length (before_redirect arguments) = 2
                then emit (Chdir (Some (arguments ! 1))) (prompted orc s)
              else prompted orc s)
       \<and> events (emit (Chdir d) (prompted orc s)) = events (prompted orc s) @ [Chdir d]
       \<and> filter is_chdir (events (prompted orc s)) = filter is_chdir (events s)"
proof -
  from assms(1) obtain line argIndex where scan: "scan line = Inr (Tokens arguments argIndex)"
    and build: "build arguments argIndex = Inr com"
    by (rule parse_stages)
  note fa = args_with_final_word [OF build scan assms(3)]
  have ne: "arguments \<noteq> []" by (rule build_shape(1) [OF build])
  have "\<not> is_redirect (hd arguments)" using assms(2) by (simp add: is_redirect_def)
  note b = before_redirect_hd [OF ne this]
  have a0: "arg_at com 0 = Some ''cd''"
    using b assms(2) fa(2) by (simp add: arg_at_def hd_conv_nth)
  have a1: "arg_at com 1 = Some (arguments ! 1)" if "length (before_redirect arguments) = 2"
    using that fa(2) before_redirect_nth [of 1 arguments] by (simp add: arg_at_def)
  from b(1) fa(1) have n0: "numArgs com \<noteq> 0" by simp
  have "runShell orc (Some raw) s = dispatch orc (foreground_mode (prompted orc s) com) (prompted orc s)"
    using runShell_parse [OF assms(1), of s] n0 by simp
  then show ?thesis
    using a0 a1 fa(1) by (auto simp: dispatch_def prompted_filter)
qed

theorem C7_witness:
  "parse (getpid example_surroundings) (line_size example_surroundings) (''cd /tmp > out'' @ [NL]) =
     Inr (Some ([''cd'', ''/tmp'', ''>'', ''out''],
       \<lparr>args = [Some ''cd'', Some ''/tmp''], com_input = [], com_output = ''out'', background = 0,
        numArgs = 2\<rparr>))
   \<and> hd [''cd'', ''/tmp'', ''>'', ''out''] = ''cd''
   \<and> last [''cd'', ''/tmp'', ''>'', ''out''] \<noteq> ''&''
   \<and> map_option events
         (final (runShell example_surroundings (Some (''cd /tmp > out'' @ [NL])) initial))
       = Some [Print '':'', Chdir (Some ''/tmp'')]
   \<and> parse (getpid example_surroundings) (line_size example_surroundings) (''cd'' @ [NL]) =
     Inr (Some ([''cd''],
       \<lparr>args = [Some ''cd''], com_input = [], com_output = [], background = 0, numArgs = 1\<rparr>))
   \<and> map_option events (final (runShell example_surroundings (Some (''cd'' @ [NL])) initial))
       = Some [Print '':'', Chdir (Some ''/root'')]"
proof -
  have h1: "parse (getpid example_surroundings) (line_size example_surroundings)
      (''cd /tmp > out'' @ [NL]) =
     Inr (Some ([''cd'', ''/tmp'', ''>'', ''out''],
       \<lparr>args = [Some ''cd'', Some ''/tmp''], com_input = [], com_output = ''out'', background = 0,
        numArgs = 2\<rparr>))"
    by (rule parse_cd_tmp_out)
  have h2: "hd [''cd'', ''/tmp'', ''>'', ''out''] = ''cd''" by simp
  have h3: "last [''cd'', ''/tmp'', ''>'', ''out''] \<noteq> ''&''" by simp
  have g1: "parse (getpid example_surroundings) (line_size example_surroundings) (''cd'' @ [NL]) =
     Inr (Some ([''cd''],
       \<lparr>args = [Some ''cd''], com_input = [], com_output = [], background = 0, numArgs = 1\<rparr>))"
    by (rule parse_cd)
  have g2: "hd [''cd''] = ''cd''" by simp
  have g3: "last [''cd''] \<noteq> ''&''" by simp
  have b: "before_redirect [''cd'', ''/tmp'', ''>'', ''out''] = [''cd'', ''/tmp'']"
    "before_redirect [''cd''] = [''cd'']"
    by (simp_all add: before_redirect_def is_redirect_def)
  have e: "events initial = []" by (simp add: initial_def)
  from C7_cd_changes_directory_for_at_most_one_argument [OF h1 h2 h3, of initial]
    C7_cd_changes_directory_for_at_most_one_argument [OF g1 g2 g3, of initial]
    h1 h2 h3 g1
  show ?thesis by (simp add: b prompted_initial e)
qed

text \<open>
  C7, as stated, has \<open>cd\<close> use its first argument when there are several. The two branches
  test \<open>numArgs == 1\<close> and \<open>numArgs == 2\<close>, and there is no third: for \<open>cd a b\<close> the
  iteration prints the prompt and does nothing else.
\<close>

theorem C7_two_arguments_no_chdir:
  "runShell example_surroundings (Some (''cd a b'' @ [NL])) initial =
     Returned 0 (printf '':'' initial)
   \<and> events (printf '':'' initial) = [Print '':'']"
  using runShell_parse [OF parse_cd_a_b, of example_surroundings initial]
  by (simp add: dispatch_def arg_at_def prompted_initial) (simp add: initial_def)

subsection \<open>Foreground-only mode and the final \<open>&\<close>\<close>



lemma parse_sleep:
  "parse shellPID alloc (''sleep 5 &'' @ [NL]) =
     Inr (Some ([''sleep'', ''5'', ''&''],
       \<lparr>args = [Some ''sleep'', Some ''5'', None], com_input = [], com_output = [],
        background = 1, numArgs = 3\<rparr>))"
  by (simp add: parse_def expand_line_def strip_newline_def NL_def NUL_def expand_loop.simps
      cstr_def scan_def strtok_def TAB_def build_def upt_rec)





subsection \<open>A background child that terminates at once\<close>

lemma first_iteration:
  "runShell example_surroundings (Some (''sleep 5 &'' @ [NL])) initial = Returned 0 reaped_early"
  using runShell_parse [OF parse_sleep, of example_surroundings initial]
  by (simp add: dispatch_def arg_at_def prompted_initial foreground_mode_def parent_def
      waitpid_nohang_def thousand_slots reaped_early_def)
     (simp add: initial_def printf_def emit_def thousand_slots)

lemma second_prompt:
  "childStatus0 orc = 0 \<Longrightarrow> prompted orc reaped_early =
     printf '':'' (printf (done_exit 100 0) (reaped_early\<lparr>bgRunning := 0 # replicate 999 0\<rparr>))"
  by (simp add: prompted_def announce_def sweep_def waitpid_nohang_def sweep_loop_empty_slots
      WIFEXITED_def WTERMSIG_def WEXITSTATUS_def reaped_early_def)

lemma second_prompt_other:
  "childStatus0 orc = 127 \<Longrightarrow> prompted orc reaped_early = printf '':'' reaped_early"
  by (simp add: prompted_def announce_def sweep_def waitpid_nohang_def sweep_loop_empty_slots
      WIFEXITED_def WTERMSIG_def WIFSIGNALED_def reaped_early_def)

text \<open>
  The loop over the slots does what is asked when it is the loop that finds the child
  terminated: one notice with the exit value, the slot cleared. A child that still runs
  keeps its slot.
\<close>

lemma sweep_loop_reports_exit:
  assumes "p \<noteq> 0" and "children s p = Some (Ended (exit_status e))" and "0 \<le> e" and "e < 256"
  shows "sweep_loop (p # ps) cs s =
     (case sweep_loop ps (exit_status e)
             (printf (done_exit p e) (s\<lparr>children := (children s)(p := None)\<rparr>)) of
        (ps', r) \<Rightarrow> (0 # ps', r))"
  using assms
  by (simp add: waitpid_nohang_def WIFEXITED_exit_status WEXITSTATUS_exit_status)

lemma sweep_loop_keeps_running:
  assumes "p \<noteq> 0" and "children s p = Some Running"
  shows "sweep_loop (p # ps) cs s = (case sweep_loop ps cs s of (ps', r) \<Rightarrow> (p # ps', r))"
  using assms by (simp add: waitpid_nohang_def)

text \<open>
  C3. A background child is to be announced once when it is done, with its exit value,
  and its slot freed. Let the child 100 of \<open>sleep 5 &\<close> terminate with exit value 1 before
  the parent polls it. The poll after \<open>fork\<close> takes the status into \<open>bgStatus\<close>, which is
  never read, and the pid stays in \<open>bgRunning\<close>. In the next iteration \<open>waitpid\<close> finds no
  such child and returns \<open>-1\<close>, which the loop takes for a termination; it then reads
  \<open>childStatus\<close>, which nothing has written. If that value is 0 the notice says
  \<open>exit value 0\<close>; if it is 127 there is no notice and the slot is kept.
\<close>

theorem C3_status_of_early_child_lost:
  "child_end example_surroundings = exit_status 1 \<and>
   map_option (\<lambda>s. (events s, hd (bgRunning s)))
     (final (main_loop [(example_surroundings, Some (''sleep 5 &'' @ [NL])),
                        (example_surroundings, Some (''status'' @ [NL]))] initial))
   = Some ([Print '':'',
            Fork \<lparr>args = [Some ''sleep'', Some ''5'', None], com_input = [], com_output = [],
                   background = 1, numArgs = 3\<rparr> 100,
            Print (started 100),
            Print (done_exit 100 0),
            Print '':'',
            Print (''exit value 0'' @ [NL])], 0) \<and>
   map_option (\<lambda>s. (events s, hd (bgRunning s)))
     (final (main_loop [(example_surroundings, Some (''sleep 5 &'' @ [NL])),
                        (example_surroundings\<lparr>childStatus0 := 127\<rparr>, Some (''status'' @ [NL]))]
               initial))
   = Some ([Print '':'',
            Fork \<lparr>args = [Some ''sleep'', Some ''5'', None], com_input = [], com_output = [],
                   background = 1, numArgs = 3\<rparr> 100,
            Print (started 100),
            Print '':'',
            Print (''exit value 0'' @ [NL])], 100)"
proof -
  have a: "runShell example_surroundings (Some (''status'' @ [NL])) reaped_early =
      Returned 0 (printf (status_text (- 1234))
        (printf '':'' (printf (done_exit 100 0) (reaped_early\<lparr>bgRunning := 0 # replicate 999 0\<rparr>))))"
    using runShell_parse [OF parse_status, of example_surroundings reaped_early]
    by (simp add: dispatch_def arg_at_def second_prompt) (simp add: reaped_early_def)
  have b: "runShell (example_surroundings\<lparr>childStatus0 := 127\<rparr>) (Some (''status'' @ [NL])) reaped_early =
      Returned 0 (printf (status_text (- 1234)) (printf '':'' reaped_early))"
    using runShell_parse [OF parse_status, of "example_surroundings\<lparr>childStatus0 := 127\<rparr>" reaped_early]
    by (simp add: dispatch_def arg_at_def second_prompt_other) (simp add: reaped_early_def)
  show ?thesis
    using first_iteration a b
    by (simp add: status_text_sentinel) (simp add: reaped_early_def)
qed

end
